theory Spec2Isabelle
  imports Main "HOL-Library.Word" "HOL-Library.Signed_Division" "HOL-Library.AList"
begin

unbundle bit_operations_syntax

section \<open>Byte buffers, hexadecimal strings and big integers\<close>

text \<open>
  A Node \<open>Buffer\<close> is a list of bytes. JavaScript \<open>BigInt\<close> values are unbounded
  integers (\<open>int\<close>); the remainder operator \<open>%\<close> on them truncates towards zero, which is
  \<open>smod\<close>.
\<close>

type_synonym byte = "8 word"
type_synonym buffer = "byte list"

definition hexchars :: string where
  "hexchars = ''0123456789abcdef''"

definition hexdigit :: "nat \<Rightarrow> char" where
  "hexdigit d = hexchars ! d"

text \<open>The value of one hexadecimal character, either case; \<open>None\<close> for any other character.\<close>

definition unhex :: "char \<Rightarrow> nat option" where
  "unhex c =
     (let k = of_char c :: nat in
      if 48 \<le> k \<and> k \<le> 57 then Some (k - 48)
      else if 97 \<le> k \<and> k \<le> 102 then Some (k - 87)
      else if 65 \<le> k \<and> k \<le> 70 then Some (k - 55)
      else None)"

text \<open>\<open>buf.toString('hex')\<close>: two lower-case digits per byte.\<close>

fun toString_hex :: "buffer \<Rightarrow> string" where
  "toString_hex [] = []"
| "toString_hex (b # bs) = hexdigit (unat b div 16) # hexdigit (unat b mod 16) # toString_hex bs"

text \<open>
  \<open>Buffer.from(s, 'hex')\<close>: the characters are read in pairs; decoding stops at the first
  pair that is not two hexadecimal digits, and a trailing single character is dropped.
\<close>

fun Buffer_from_hex :: "string \<Rightarrow> buffer" where
  "Buffer_from_hex (a # b # rest) =
     (case (unhex a, unhex b) of
        (Some x, Some y) \<Rightarrow> of_nat (16 * x + y) # Buffer_from_hex rest
      | _ \<Rightarrow> [])"
| "Buffer_from_hex _ = []"

text \<open>
  \<open>BigInt('0x' + s)\<close>. White space at the end of the string is skipped; what is left must
  be one hexadecimal digit or more, of either case, and the digits are accumulated most
  significant first. Anything else throws a SyntaxError (\<open>None\<close>). A string of the model
  is a list of 8-bit characters, the code units of the JavaScript string; among them the
  white space of the language is TAB, LF, VT, FF, CR, SP and NBSP.
\<close>

definition is_whitespace :: "char \<Rightarrow> bool" where
  "is_whitespace c =
     (let k = of_char c :: nat in (9 \<le> k \<and> k \<le> 13) \<or> k = 32 \<or> k = 160)"

definition trim_end :: "string \<Rightarrow> string" where
  "trim_end s = rev (dropWhile is_whitespace (rev s))"

fun hex_accum :: "int \<Rightarrow> string \<Rightarrow> int option" where
  "hex_accum acc [] = Some acc"
| "hex_accum acc (c # cs) =
     (case unhex c of None \<Rightarrow> None | Some d \<Rightarrow> hex_accum (16 * acc + int d) cs)"

definition BigInt_0x :: "string \<Rightarrow> int option" where
  "BigInt_0x s = (if trim_end s = [] then None else hex_accum 0 (trim_end s))"

text \<open>\<open>v.toString(16)\<close> of a BigInt: a minus sign for a negative value, then the digits.\<close>

fun hex_of_nat :: "nat \<Rightarrow> string" where
  "hex_of_nat n = (if n < 16 then [hexdigit n] else hex_of_nat (n div 16) @ [hexdigit (n mod 16)])"

declare hex_of_nat.simps [simp del]

definition toString16 :: "int \<Rightarrow> string" where
  "toString16 v = (if v < 0 then CHR ''-'' # hex_of_nat (nat (- v)) else hex_of_nat (nat v))"

text \<open>\<open>s.padStart(n, '0')\<close>.\<close>

definition padStart0 :: "nat \<Rightarrow> string \<Rightarrow> string" where
  "padStart0 n s = replicate (n - length s) CHR ''0'' @ s"

text \<open>The big-endian value of a buffer.\<close>

definition be_value :: "buffer \<Rightarrow> int" where
  "be_value bs = foldl (\<lambda>acc b. 256 * acc + uint b) 0 bs"

text \<open>A natural number as a decimal string, as \<open>toString()\<close> and a template literal print it.\<close>

fun dec_of_nat :: "nat \<Rightarrow> string" where
  "dec_of_nat n = (if n < 10 then [hexdigit n] else dec_of_nat (n div 10) @ [hexdigit (n mod 10)])"

declare dec_of_nat.simps [simp del]

section \<open>The key store\<close>

text \<open>
  The operating system as the key store sees it: the files written so far and the position
  in the stream of random bytes. The environment fixes the random stream (\<open>entropy\<close>),
  the paths on which \<open>fs.writeFile\<close> fails, and the working directory.
\<close>

datatype key_algorithm = ECDSA_SECP256K1 | SCHNORR_SECP256K1 | ED25519

record HSMKeyMetadata =
  md_keyId :: string
  md_algorithm :: key_algorithm
  md_createdAt :: int
  md_extractable :: bool
  md_usages :: "string list"

datatype file_content = Bytes buffer | MetadataJson HSMKeyMetadata

record os_state =
  files :: "string \<rightharpoonup> file_content"
  rnd_pos :: nat

record os_env =
  entropy :: "nat \<Rightarrow> byte"
  write_fails :: "string \<Rightarrow> bool"
  cwd :: string

text \<open>\<open>crypto.randomBytes(n)\<close>: the next \<open>n\<close> bytes of the stream.\<close>

definition randomBytes :: "os_env \<Rightarrow> nat \<Rightarrow> os_state \<Rightarrow> buffer \<times> os_state" where
  "randomBytes env n os =
     (map (entropy env) [rnd_pos os ..< rnd_pos os + n], os\<lparr>rnd_pos := rnd_pos os + n\<rparr>)"

text \<open>
  The primitives of Node's \<open>crypto\<close> module and of the curve library that the key store
  calls. They are parameters of the model. \<open>gcm_encrypt key iv plaintext\<close> is the pair of
  ciphertext and authentication tag; \<open>gcm_decrypt key iv tag ciphertext\<close> is \<open>None\<close>
  when the decipher throws.
\<close>

record crypto_ops =
  pbkdf2Sync :: "string \<Rightarrow> buffer \<Rightarrow> nat \<Rightarrow> nat \<Rightarrow> string \<Rightarrow> buffer"
  gcm_encrypt :: "buffer \<Rightarrow> buffer \<Rightarrow> buffer \<Rightarrow> buffer \<times> buffer"
  gcm_decrypt :: "buffer \<Rightarrow> buffer \<Rightarrow> buffer \<Rightarrow> buffer \<Rightarrow> buffer option"
  schnorr_sign :: "buffer \<Rightarrow> buffer \<Rightarrow> buffer option"
  schnorr_getPublicKey :: "buffer \<Rightarrow> buffer option"

datatype provider = AWS_CLOUDHSM | AZURE_KEY_VAULT | GOOGLE_CLOUD_HSM | YUBIHSM | FILE_BASED

record encryption_config =
  enc_algorithm :: string
  enc_password :: string

record HSMConfig =
  hsm_provider :: provider
  keyPath :: "string option"
  encryption :: "encryption_config option"

datatype ks_error =
    WriteFailed string
  | FileNotFound string
  | DecipherFailed
  | CurveFailed
  | NotConfigured provider
  | NotImplemented provider

text \<open>
  Node's \<open>path.join\<close> on a POSIX system (the node runs in a Linux container). The
  arguments that are not empty are joined with a slash and the result is normalised:
  the path is cut at its slashes; an empty segment and the segment \<open>.\<close> are dropped;
  the segment \<open>..\<close> removes the segment before it, unless there is none or it is
  \<open>..\<close> itself, and then it is kept in a relative path and dropped in an absolute one.
\<close>

fun path_segments :: "string \<Rightarrow> string list" where
  "path_segments [] = [[]]"
| "path_segments (c # cs) =
     (if c = CHR ''/'' then [] # path_segments cs
      else (case path_segments cs of
              [] \<Rightarrow> [[c]]
            | s # ss \<Rightarrow> (c # s) # ss))"

fun normalizeString :: "bool \<Rightarrow> string list \<Rightarrow> string list \<Rightarrow> string list" where
  "normalizeString allowAboveRoot res [] = res"
| "normalizeString allowAboveRoot res (seg # rest) =
     (if seg = [] \<or> seg = ''.'' then normalizeString allowAboveRoot res rest
      else if seg = ''..'' then
        (if res \<noteq> [] \<and> last res \<noteq> ''..'' then normalizeString allowAboveRoot (butlast res) rest
         else if allowAboveRoot then normalizeString allowAboveRoot (res @ [''..'']) rest
         else normalizeString allowAboveRoot res rest)
      else normalizeString allowAboveRoot (res @ [seg]) rest)"

fun join_segments :: "string list \<Rightarrow> string" where
  "join_segments [] = []"
| "join_segments [s] = s"
| "join_segments (s # t # ss) = s @ ''/'' @ join_segments (t # ss)"

definition path_normalize :: "string \<Rightarrow> string" where
  "path_normalize p =
     (case p of
        [] \<Rightarrow> ''.''
      | c # cs \<Rightarrow>
          (let isAbsolute = (c = CHR ''/'');
               trailingSeparator = (last p = CHR ''/'');
               res = join_segments (normalizeString (\<not> isAbsolute) [] (path_segments p))
           in if res = [] then (if isAbsolute then ''/'' else if trailingSeparator then ''./'' else ''.'')
              else (if isAbsolute then ''/'' else []) @ res @ (if trailingSeparator then ''/'' else [])))"

definition path_join :: "string \<Rightarrow> string \<Rightarrow> string" where
  "path_join a b =
     (if a = [] \<and> b = [] then ''.''
      else if a = [] then path_normalize b
      else if b = [] then path_normalize a
      else path_normalize (a @ ''/'' @ b))"

text \<open>\<open>this.config.encryption?.password\<close> as a condition: present and not empty.\<close>

definition configured_password :: "HSMConfig \<Rightarrow> string option" where
  "configured_password config =
     (case encryption config of
        None \<Rightarrow> None
      | Some e \<Rightarrow> if enc_password e = [] then None else Some (enc_password e))"

definition encryptKeyShare ::
  "crypto_ops \<Rightarrow> os_env \<Rightarrow> buffer \<Rightarrow> string \<Rightarrow> os_state \<Rightarrow> buffer \<times> os_state" where
  "encryptKeyShare ops env keyShare password os =
     (let (salt, os1) = randomBytes env 32 os;
          key = pbkdf2Sync ops password salt 100000 32 ''sha256'';
          (iv, os2) = randomBytes env 16 os1;
          (encrypted, authTag) = gcm_encrypt ops key iv keyShare
      in (salt @ iv @ authTag @ encrypted, os2))"

text \<open>\<open>buf.subarray(a, b)\<close> clamps both ends to the buffer.\<close>

definition subarray :: "buffer \<Rightarrow> nat \<Rightarrow> nat \<Rightarrow> buffer" where
  "subarray buf a b = take (b - a) (drop a buf)"

definition decryptKeyShare :: "crypto_ops \<Rightarrow> buffer \<Rightarrow> string \<Rightarrow> ks_error + buffer" where
  "decryptKeyShare ops encryptedData password =
     (let salt = subarray encryptedData 0 32;
          iv = subarray encryptedData 32 48;
          authTag = subarray encryptedData 48 64;
          encrypted = drop 64 encryptedData;
          key = pbkdf2Sync ops password salt 100000 32 ''sha256''
      in case gcm_decrypt ops key iv authTag encrypted of
           None \<Rightarrow> Inl DecipherFailed
         | Some plain \<Rightarrow> Inr plain)"

text \<open>\<open>fs.writeFile\<close>: the file is replaced, or the call throws and nothing is written.\<close>

definition writeFile :: "os_env \<Rightarrow> string \<Rightarrow> file_content \<Rightarrow> os_state \<Rightarrow> ks_error option \<times> os_state" where
  "writeFile env p c os =
     (if write_fails env p then (Some (WriteFailed p), os)
      else (None, os\<lparr>files := (files os)(p \<mapsto> c)\<rparr>))"

text \<open>The file-based store. \<open>keyDir\<close> is \<open>config.keyPath || path.join(process.cwd(), 'keys')\<close>.\<close>

definition keyDir :: "os_env \<Rightarrow> HSMConfig \<Rightarrow> string" where
  "keyDir env config =
     (case keyPath config of
        None \<Rightarrow> path_join (cwd env) ''keys''
      | Some p \<Rightarrow> if p = [] then path_join (cwd env) ''keys'' else p)"

definition keyshare_path :: "os_env \<Rightarrow> HSMConfig \<Rightarrow> string \<Rightarrow> string" where
  "keyshare_path env config kid = path_join (keyDir env config) (kid @ ''.keyshare'')"

definition metadata_path :: "os_env \<Rightarrow> HSMConfig \<Rightarrow> string \<Rightarrow> string" where
  "metadata_path env config kid = path_join (keyDir env config) (kid @ ''.metadata.json'')"

definition file_storeKeyShare ::
  "crypto_ops \<Rightarrow> os_env \<Rightarrow> HSMConfig \<Rightarrow> buffer \<Rightarrow> HSMKeyMetadata \<Rightarrow> os_state
     \<Rightarrow> (ks_error + string) \<times> os_state" where
  "file_storeKeyShare ops env config keyShare metadata os =
     (let (dataToStore, os1) =
            (case configured_password config of
               None \<Rightarrow> (keyShare, os)
             | Some password \<Rightarrow> encryptKeyShare ops env keyShare password os)
      in case writeFile env (keyshare_path env config (md_keyId metadata)) (Bytes dataToStore) os1 of
           (Some e, os2) \<Rightarrow> (Inl e, os2)
         | (None, os2) \<Rightarrow>
             (case writeFile env (metadata_path env config (md_keyId metadata)) (MetadataJson metadata) os2 of
                (Some e, os3) \<Rightarrow> (Inl e, os3)
              | (None, os3) \<Rightarrow> (Inr (md_keyId metadata), os3)))"

text \<open>Reading the key share back, as \<open>sign\<close> and \<open>getPublicKey\<close> both do.\<close>

definition file_loadKeyShare ::
  "crypto_ops \<Rightarrow> os_env \<Rightarrow> HSMConfig \<Rightarrow> string \<Rightarrow> os_state \<Rightarrow> ks_error + buffer" where
  "file_loadKeyShare ops env config kid os =
     (case files os (keyshare_path env config kid) of
        Some (Bytes encryptedKey) \<Rightarrow>
          (case configured_password config of
             None \<Rightarrow> Inr encryptedKey
           | Some password \<Rightarrow> decryptKeyShare ops encryptedKey password)
      | _ \<Rightarrow> Inl (FileNotFound (keyshare_path env config kid)))"

definition file_sign ::
  "crypto_ops \<Rightarrow> os_env \<Rightarrow> HSMConfig \<Rightarrow> buffer \<Rightarrow> string \<Rightarrow> os_state
     \<Rightarrow> (ks_error + buffer) \<times> os_state" where
  "file_sign ops env config messageHash kid os =
     (case file_loadKeyShare ops env config kid os of
        Inl e \<Rightarrow> (Inl e, os)
      | Inr keyShare \<Rightarrow>
          (case schnorr_sign ops messageHash keyShare of
             None \<Rightarrow> (Inl CurveFailed, os)
           | Some signature \<Rightarrow> (Inr signature, os)))"

definition file_getPublicKey ::
  "crypto_ops \<Rightarrow> os_env \<Rightarrow> HSMConfig \<Rightarrow> string \<Rightarrow> os_state \<Rightarrow> (ks_error + buffer) \<times> os_state" where
  "file_getPublicKey ops env config kid os =
     (case file_loadKeyShare ops env config kid os of
        Inl e \<Rightarrow> (Inl e, os)
      | Inr keyShare \<Rightarrow>
          (case schnorr_getPublicKey ops keyShare of
             None \<Rightarrow> (Inl CurveFailed, os)
           | Some publicKey \<Rightarrow> (Inr publicKey, os)))"

text \<open>
  The factory \<open>HSMKeyStore\<close> dispatches on the provider. The two cloud stores are stubs:
  they store nothing and throw on \<open>sign\<close> and \<open>getPublicKey\<close>; the constructor throws
  for the two providers that are not implemented.
\<close>

definition HSMKeyStore_storeKeyShare ::
  "crypto_ops \<Rightarrow> os_env \<Rightarrow> HSMConfig \<Rightarrow> buffer \<Rightarrow> HSMKeyMetadata \<Rightarrow> os_state
     \<Rightarrow> (ks_error + string) \<times> os_state" where
  "HSMKeyStore_storeKeyShare ops env config keyShare metadata os =
     (case hsm_provider config of
        AWS_CLOUDHSM \<Rightarrow> (Inr (md_keyId metadata), os)
      | AZURE_KEY_VAULT \<Rightarrow> (Inr (md_keyId metadata), os)
      | GOOGLE_CLOUD_HSM \<Rightarrow> (Inl (NotImplemented GOOGLE_CLOUD_HSM), os)
      | YUBIHSM \<Rightarrow> (Inl (NotImplemented YUBIHSM), os)
      | FILE_BASED \<Rightarrow> file_storeKeyShare ops env config keyShare metadata os)"

definition HSMKeyStore_sign ::
  "crypto_ops \<Rightarrow> os_env \<Rightarrow> HSMConfig \<Rightarrow> buffer \<Rightarrow> string \<Rightarrow> os_state
     \<Rightarrow> (ks_error + buffer) \<times> os_state" where
  "HSMKeyStore_sign ops env config messageHash kid os =
     (case hsm_provider config of
        AWS_CLOUDHSM \<Rightarrow> (Inl (NotConfigured AWS_CLOUDHSM), os)
      | AZURE_KEY_VAULT \<Rightarrow> (Inl (NotConfigured AZURE_KEY_VAULT), os)
      | GOOGLE_CLOUD_HSM \<Rightarrow> (Inl (NotImplemented GOOGLE_CLOUD_HSM), os)
      | YUBIHSM \<Rightarrow> (Inl (NotImplemented YUBIHSM), os)
      | FILE_BASED \<Rightarrow> file_sign ops env config messageHash kid os)"

definition HSMKeyStore_getPublicKey ::
  "crypto_ops \<Rightarrow> os_env \<Rightarrow> HSMConfig \<Rightarrow> string \<Rightarrow> os_state \<Rightarrow> (ks_error + buffer) \<times> os_state" where
  "HSMKeyStore_getPublicKey ops env config kid os =
     (case hsm_provider config of
        AWS_CLOUDHSM \<Rightarrow> (Inl (NotConfigured AWS_CLOUDHSM), os)
      | AZURE_KEY_VAULT \<Rightarrow> (Inl (NotConfigured AZURE_KEY_VAULT), os)
      | GOOGLE_CLOUD_HSM \<Rightarrow> (Inl (NotImplemented GOOGLE_CLOUD_HSM), os)
      | YUBIHSM \<Rightarrow> (Inl (NotImplemented YUBIHSM), os)
      | FILE_BASED \<Rightarrow> file_getPublicKey ops env config kid os)"

section \<open>The DKG service\<close>

definition secp256k1_n :: int where
  "secp256k1_n = 0xFFFFFFFFFFFFFFFFFFFFFFFFFFFFFFFEBAAEDCE6AF48A03BBFD25E8CD0364141"

text \<open>
  The numbers of the configuration are JavaScript numbers that hold integers. \<open>hsmStore\<close>
  is the configuration of the optional key store.
\<close>

record DKGConfig =
  partyId :: int
  threshold :: int
  totalParties :: int
  timeout :: int
  hsmStore :: "HSMConfig option"

record DKGCommitment =
  c_partyId :: int
  commitments :: "string list"
  c_proof :: string
  c_timestamp :: int

record DKGShare =
  fromParty :: int
  toParty :: int
  encryptedShare :: string
  s_proof :: string

datatype dkg_error =
    CoefficientsNotGenerated
  | InvalidCommitment int
  | TimeoutCommitments nat int
  | TimeoutPublicKeyShares nat int
  | BigIntSyntaxError
  | CurveError
  | KeyStoreError ks_error
  | UndefinedResult

text \<open>
  The errors are the \<open>Error\<close> objects the service throws, by their messages:
  \<open>InvalidCommitment p\<close> is \<open>Invalid commitment from Party p\<close>,
  \<open>TimeoutCommitments r n\<close> is \<open>Timeout waiting for commitments (received r/n)\<close> and
  \<open>TimeoutPublicKeyShares r n\<close> is \<open>Timeout waiting for public key shares (received r/n)\<close>.

  The fields of the service. A JavaScript \<open>Map\<close> is an association list in insertion
  order.
\<close>

record dkg_service =
  receivedCommitments :: "(int \<times> DKGCommitment) list"
  receivedShares :: "(int \<times> DKGShare) list"
  receivedPublicKeyShares :: "(int \<times> buffer) list"
  myCommitment :: "DKGCommitment option"
  myKeyShare :: "buffer option"
  myPublicKeyShare :: "buffer option"
  aggregatedPublicKey :: "buffer option"
  coefficients :: "int list option"

subsection \<open>Round 1: the coefficients\<close>

text \<open>
  The loop that fills \<open>this.coefficients\<close>, starting from the empty list: \<open>threshold\<close>
  times, \<open>BigInt('0x' + crypto.randomBytes(32).toString('hex'))\<close> is pushed.
\<close>

fun sample_coefficients ::
  "os_env \<Rightarrow> nat \<Rightarrow> int list \<Rightarrow> os_state \<Rightarrow> dkg_error option \<times> int list \<times> os_state" where
  "sample_coefficients env 0 coeffs os = (None, coeffs, os)"
| "sample_coefficients env (Suc k) coeffs os =
     (let (bytes, os1) = randomBytes env 32 os in
      case BigInt_0x (toString_hex bytes) of
        None \<Rightarrow> (Some BigIntSyntaxError, coeffs, os1)
      | Some coeff \<Rightarrow> sample_coefficients env k (coeffs @ [coeff]) os1)"

subsection \<open>Rounds 3 to 5: the shares\<close>

text \<open>
  The loop shared by rounds 3 and 5, over the coefficients in order:
  \<^verbatim>\<open>shareValue = (shareValue + coeff * xPower) % secp256k1_n;
  xPower = (xPower * x) % secp256k1_n;\<close>
\<close>

fun eval_loop :: "int \<Rightarrow> int \<Rightarrow> int \<Rightarrow> int list \<Rightarrow> int" where
  "eval_loop x shareValue xPower [] = shareValue"
| "eval_loop x shareValue xPower (coeff # cs) =
     eval_loop x ((shareValue + coeff * xPower) smod secp256k1_n)
       ((xPower * x) smod secp256k1_n) cs"

definition evaluate_polynomial :: "int list \<Rightarrow> int \<Rightarrow> int" where
  "evaluate_polynomial coeffs x = eval_loop x 0 1 coeffs"




text \<open>Round 4 writes two log lines and returns.\<close>

definition round4_VerifyShares :: "DKGConfig \<Rightarrow> dkg_service \<Rightarrow> dkg_error option \<times> dkg_service" where
  "round4_VerifyShares cfg svc = (None, svc)"

text \<open>
  Round 5: the party's own share, then every entry of \<open>receivedShares\<close> whose
  \<open>toParty\<close> is this party, added modulo the group order; the total, as 64 hexadecimal
  digits, becomes the 32 bytes of \<open>myKeyShare\<close>.
\<close>

fun add_received :: "int \<Rightarrow> int \<Rightarrow> (int \<times> DKGShare) list \<Rightarrow> dkg_error + int" where
  "add_received me totalShare [] = Inr totalShare"
| "add_received me totalShare ((sender, share) # rest) =
     (if toParty share = me then
        (case BigInt_0x (encryptedShare share) of
           None \<Rightarrow> Inl BigIntSyntaxError
         | Some shareValue \<Rightarrow> add_received me ((totalShare + shareValue) smod secp256k1_n) rest)
      else add_received me totalShare rest)"

definition round5_ComputeKeyShare :: "DKGConfig \<Rightarrow> dkg_service \<Rightarrow> dkg_error option \<times> dkg_service" where
  "round5_ComputeKeyShare cfg svc =
     (case coefficients svc of
        None \<Rightarrow> (Some CoefficientsNotGenerated, svc)
      | Some coeffs \<Rightarrow>
          (let myOwnShare = evaluate_polynomial coeffs (partyId cfg) in
           case add_received (partyId cfg) myOwnShare (receivedShares svc) of
             Inl e \<Rightarrow> (Some e, svc)
           | Inr totalShare \<Rightarrow>
               (None, svc\<lparr>myKeyShare := Some (Buffer_from_hex (padStart0 64 (toString16 totalShare)))\<rparr>)))"

subsection \<open>The arithmetic of the specification\<close>

text \<open>
  The sum \<open>\<Sum>k<t. a\<^sub>k * x^k\<close> of the specification, before reduction, and the values of
  the received shares that are addressed to a party.
\<close>

definition poly_sum :: "int list \<Rightarrow> int \<Rightarrow> int" where
  "poly_sum cs x = (\<Sum>k<length cs. cs ! k * x ^ k)"

fun addressed_values :: "int \<Rightarrow> (int \<times> DKGShare) list \<Rightarrow> int list" where
  "addressed_values me [] = []"
| "addressed_values me ((sender, share) # rest) =
     (if toParty share = me then
        (case BigInt_0x (encryptedShare share) of
           None \<Rightarrow> addressed_values me rest
         | Some v \<Rightarrow> v # addressed_values me rest)
      else addressed_values me rest)"

fun all_addressed_parse :: "int \<Rightarrow> (int \<times> DKGShare) list \<Rightarrow> bool" where
  "all_addressed_parse me [] = True"
| "all_addressed_parse me ((sender, share) # rest) =
     ((toParty share \<noteq> me \<or> BigInt_0x (encryptedShare share) \<noteq> None) \<and> all_addressed_parse me rest)"

section \<open>The DKG ceremony in time\<close>

text \<open>
  A message of the orchestrator as \<open>handleOrchestratorMessage\<close> sees it: by its
  \<open>type\<close>, the party id read off the end of its \<open>validatorId\<close> (the number
  \<open>parseInt\<close> returns for the digits \<open>/(\d+)$/\<close> matches; \<open>None\<close> when the
  \<open>validatorId\<close> is missing or does not end in a digit) and its \<open>data\<close>. For
  \<open>DKG_PUBLIC_KEY_SHARE\<close> the data is the hexadecimal string \<open>data.publicKeyShare\<close>.
  The messages the service emits as \<open>dkgMessage\<close> events carry the type and the data.
\<close>

datatype orch_message =
    DKG_COMMITMENT "int option" DKGCommitment
  | DKG_SHARE "int option" DKGShare
  | DKG_PUBLIC_KEY_SHARE "int option" string
  | Unknown_type "int option"

datatype dkg_message =
    Emit_COMMITMENT DKGCommitment
  | Emit_SHARE DKGShare
  | Emit_PUBLIC_KEY_SHARE int string

fun message_party :: "orch_message \<Rightarrow> int option" where
  "message_party (DKG_COMMITMENT p d) = p"
| "message_party (DKG_SHARE p d) = p"
| "message_party (DKG_PUBLIC_KEY_SHARE p d) = p"
| "message_party (Unknown_type p) = p"

definition handleOrchestratorMessage :: "orch_message \<Rightarrow> dkg_service \<Rightarrow> dkg_service" where
  "handleOrchestratorMessage msg svc =
     (case message_party msg of
        None \<Rightarrow> svc
      | Some p \<Rightarrow>
          (case msg of
             DKG_COMMITMENT v d \<Rightarrow>
               svc\<lparr>receivedCommitments := AList.update p d (receivedCommitments svc)\<rparr>
           | DKG_SHARE v d \<Rightarrow>
               svc\<lparr>receivedShares := AList.update p d (receivedShares svc)\<rparr>
           | DKG_PUBLIC_KEY_SHARE v d \<Rightarrow>
               svc\<lparr>receivedPublicKeyShares :=
                    AList.update p (Buffer_from_hex d) (receivedPublicKeyShares svc)\<rparr>
           | Unknown_type v \<Rightarrow> svc))"

text \<open>
  The curve library, as far as the service calls it: \<open>base_multiply_hex k\<close> is
  \<open>G.multiply(k).toHex()\<close>, and \<open>None\<close> wherever the library throws. The context of
  a ceremony is the configuration, the libraries, the environment of the operating system
  and, for each timer the service awaits, by how many milliseconds it fires late.
\<close>

record 'p curve_ops =
  base_multiply_hex :: "int \<Rightarrow> string option"
  sha256_hex :: "string \<Rightarrow> string"
  point_fromHex :: "buffer \<Rightarrow> 'p option"
  point_add :: "'p \<Rightarrow> 'p \<Rightarrow> 'p"
  point_toRawBytes :: "'p \<Rightarrow> buffer"

record 'p dkg_ctx =
  dkg_config :: DKGConfig
  dkg_crypto :: crypto_ops
  dkg_curve :: "'p curve_ops"
  dkg_osenv :: os_env
  lateness :: "nat \<Rightarrow> nat"

text \<open>
  The service in its world: the clock (\<open>Date.now()\<close>, in milliseconds), the messages of
  the orchestrator still under way, each with the time at which it arrives (in order of
  arrival), the \<open>dkgMessage\<close> events emitted so far, the operating system and the
  number of timers awaited so far.
\<close>

record dkg_world =
  service :: dkg_service
  now :: int
  inbox :: "(int \<times> orch_message) list"
  emitted :: "dkg_message list"
  dkg_os :: os_state
  timers :: nat

text \<open>
  The service gives up control where it awaits a timer or the loading of a module. A
  timer of \<open>ms\<close> milliseconds advances the clock by \<open>ms\<close> and by its lateness; the
  messages that have arrived by then are handled, in their order. The loading of a
  module is a timer of 0 ms.
\<close>

definition deliver :: "dkg_world \<Rightarrow> dkg_world" where
  "deliver w =
     w\<lparr>service := foldl (\<lambda>svc tm. handleOrchestratorMessage (snd tm) svc) (service w)
                      (filter (\<lambda>tm. fst tm \<le> now w) (inbox w)),
       inbox := filter (\<lambda>tm. \<not> fst tm \<le> now w) (inbox w)\<rparr>"

definition sleep :: "'p dkg_ctx \<Rightarrow> int \<Rightarrow> dkg_world \<Rightarrow> dkg_world" where
  "sleep ctx ms w =
     deliver (w\<lparr>now := now w + ms + int (lateness ctx (timers w)), timers := Suc (timers w)\<rparr>)"

definition await_import :: "'p dkg_ctx \<Rightarrow> dkg_world \<Rightarrow> dkg_world" where
  "await_import ctx w = sleep ctx 0 w"

text \<open>\<open>broadcast\<close>: the event is emitted, then the service waits 50 ms.\<close>

definition broadcast :: "'p dkg_ctx \<Rightarrow> dkg_message \<Rightarrow> dkg_world \<Rightarrow> dkg_world" where
  "broadcast ctx msg w = sleep ctx 50 (w\<lparr>emitted := emitted w @ [msg]\<rparr>)"

lemma now_deliver [simp]: "now (deliver w) = now w"
  by (simp add: deliver_def)

lemma now_sleep [simp]: "now (sleep ctx ms w) = now w + ms + int (lateness ctx (timers w))"
  by (simp add: sleep_def)

text \<open>
  The two waiting loops: a timer of 100 ms after the other until \<open>totalParties - 1\<close>
  entries are there, and a timeout error once more than \<open>timeout\<close> milliseconds have
  passed since the start.
\<close>

function poll_until ::
  "'p dkg_ctx \<Rightarrow> (dkg_service \<Rightarrow> nat) \<Rightarrow> (nat \<Rightarrow> int \<Rightarrow> dkg_error) \<Rightarrow> int \<Rightarrow> dkg_world
     \<Rightarrow> dkg_error option \<times> dkg_world" where
  "poll_until ctx received err startTime w =
     (if int (received (service w)) < totalParties (dkg_config ctx) - 1 then
        (if now w - startTime > timeout (dkg_config ctx)
         then (Some (err (received (service w)) (totalParties (dkg_config ctx) - 1)), w)
         else poll_until ctx received err startTime (sleep ctx 100 w))
      else (None, w))"
  by pat_completeness auto
termination
  by (relation "measure (\<lambda>(ctx, received, err, startTime, w).
        nat (timeout (dkg_config ctx) + 1 - (now w - startTime)))") auto

declare poll_until.simps [simp del]

definition waitForAllCommitments :: "'p dkg_ctx \<Rightarrow> dkg_world \<Rightarrow> dkg_error option \<times> dkg_world" where
  "waitForAllCommitments ctx w =
     poll_until ctx (\<lambda>svc. length (receivedCommitments svc)) TimeoutCommitments (now w) w"


subsection \<open>The rounds\<close>


text \<open>\<open>generateCommitmentProof\<close>: the SHA-256 digest, in hexadecimal, of the commitments one after the other.\<close>

definition generateCommitmentProof :: "'p curve_ops \<Rightarrow> int list \<Rightarrow> string list \<Rightarrow> string" where
  "generateCommitmentProof cv coeffs cms = sha256_hex cv (concat cms)"


text \<open>Round 2. \<open>verifyCommitment\<close> looks at the number of commitments and at nothing else.\<close>

definition verifyCommitment :: "'p dkg_ctx \<Rightarrow> DKGCommitment \<Rightarrow> bool" where
  "verifyCommitment ctx commitment =
     (if int (length (commitments commitment)) \<noteq> threshold (dkg_config ctx) then False else True)"

fun verify_all :: "'p dkg_ctx \<Rightarrow> (int \<times> DKGCommitment) list \<Rightarrow> dkg_error option" where
  "verify_all ctx [] = None"
| "verify_all ctx ((p, commitment) # rest) =
     (if \<not> verifyCommitment ctx commitment then Some (InvalidCommitment p)
      else verify_all ctx rest)"

definition round2_VerifyCommitments :: "'p dkg_ctx \<Rightarrow> dkg_world \<Rightarrow> dkg_error option \<times> dkg_world" where
  "round2_VerifyCommitments ctx w =
     (case waitForAllCommitments ctx w of
        (Some e, w1) \<Rightarrow> (Some e, w1)
      | (None, w1) \<Rightarrow> (verify_all ctx (receivedCommitments (service w1)), w1))"









subsection \<open>The ceremony\<close>

text \<open>One step after the other; the first error ends the ceremony and is thrown again.\<close>

definition and_then ::
  "(dkg_world \<Rightarrow> dkg_error option \<times> dkg_world) \<Rightarrow> (dkg_world \<Rightarrow> dkg_error option \<times> dkg_world)
     \<Rightarrow> dkg_world \<Rightarrow> dkg_error option \<times> dkg_world" where
  "and_then f g w = (case f w of (Some e, w1) \<Rightarrow> (Some e, w1) | (None, w1) \<Rightarrow> g w1)"




text \<open>The two errors of the waiting loops.\<close>

fun is_timeout :: "dkg_error \<Rightarrow> bool" where
  "is_timeout (TimeoutCommitments r n) = True"
| "is_timeout (TimeoutPublicKeyShares r n) = True"
| "is_timeout e = False"

subsection \<open>Invariants of the ceremony\<close>

text \<open>
  The shape of a timeout error; what a step leaves unchanged (the files, and the clock does
  not go back); and the worlds in which no message is under way.
\<close>

definition timeout_shape :: "'p dkg_ctx \<Rightarrow> dkg_error \<Rightarrow> bool" where
  "timeout_shape ctx e =
     (\<exists>r. (e = TimeoutCommitments r (totalParties (dkg_config ctx) - 1)
           \<or> e = TimeoutPublicKeyShares r (totalParties (dkg_config ctx) - 1))
          \<and> int r < totalParties (dkg_config ctx) - 1)"

definition frame :: "'p dkg_ctx \<Rightarrow> dkg_world \<Rightarrow> dkg_error option \<times> dkg_world \<Rightarrow> bool" where
  "frame ctx w r =
     (files (dkg_os (snd r)) = files (dkg_os w) \<and> now w \<le> now (snd r)
      \<and> (\<forall>e. fst r = Some e \<longrightarrow> is_timeout e \<longrightarrow>
            timeout_shape ctx e \<and> timeout (dkg_config ctx) < now (snd r) - now w))"

definition tframe :: "'p dkg_ctx \<Rightarrow> dkg_world \<Rightarrow> dkg_error option \<times> dkg_world \<Rightarrow> bool" where
  "tframe ctx w r =
     (\<forall>e. fst r = Some e \<longrightarrow> is_timeout e \<longrightarrow>
         timeout_shape ctx e \<and> timeout (dkg_config ctx) < now (snd r) - now w
         \<and> files (dkg_os (snd r)) = files (dkg_os w))"

definition quiet :: "dkg_world \<Rightarrow> dkg_world \<Rightarrow> bool" where
  "quiet w w' =
     (inbox w' = [] \<and> receivedCommitments (service w') = receivedCommitments (service w)
      \<and> receivedPublicKeyShares (service w') = receivedPublicKeyShares (service w))"


section \<open>The chain monitor and the validator node\<close>

text \<open>
  A \<open>SignalSent\<close> log as the provider delivers it to \<open>listenSignalEvents\<close>: the
  arguments of the event (\<open>bytes32\<close>, \<open>uint32\<close>, \<open>address\<close>, \<open>bytes\<close>,
  \<open>uint256\<close>) and the transaction it belongs to.
\<close>

record SignalSentLog =
  log_signalId :: buffer
  log_srcChainId :: nat
  log_dstChainId :: nat
  log_srcAddress :: string
  log_dstAddress :: string
  log_nonce :: nat
  log_payload :: buffer
  log_timestamp :: nat
  log_txHash :: string
  log_blockNumber :: nat

text \<open>
  The object the monitor emits as \<open>signalEvent\<close>. The library hands \<open>bytes32\<close> and
  \<open>bytes\<close> values over as \<open>0x\<close> and their hexadecimal digits, and the numbers are
  turned into decimal strings by \<open>toString()\<close>.
\<close>

record SignalEvent =
  ev_signalId :: string
  ev_srcChainId :: string
  ev_dstChainId :: string
  ev_srcAddress :: string
  ev_dstAddress :: string
  ev_nonce :: string
  ev_payload :: string
  ev_timestamp :: string
  ev_txHash :: string
  ev_blockNumber :: nat
  ev_chainName :: string

definition hexlify :: "buffer \<Rightarrow> string" where
  "hexlify bs = ''0x'' @ toString_hex bs"

text \<open>The listener of \<open>SignalSent\<close>: every log becomes one \<open>signalEvent\<close>.\<close>

definition SignalSent_listener :: "string \<Rightarrow> SignalSentLog \<Rightarrow> SignalEvent" where
  "SignalSent_listener chainName l =
     \<lparr> ev_signalId = hexlify (log_signalId l),
       ev_srcChainId = dec_of_nat (log_srcChainId l),
       ev_dstChainId = dec_of_nat (log_dstChainId l),
       ev_srcAddress = log_srcAddress l,
       ev_dstAddress = log_dstAddress l,
       ev_nonce = dec_of_nat (log_nonce l),
       ev_payload = hexlify (log_payload l),
       ev_timestamp = dec_of_nat (log_timestamp l),
       ev_txHash = log_txHash l,
       ev_blockNumber = log_blockNumber l,
       ev_chainName = chainName \<rparr>"

subsection \<open>The node\<close>

record SigningRequest =
  requestId :: string
  txHash :: string
  sourceChain :: string
  destinationChain :: string
  message :: buffer
  participants :: "int list"

text \<open>The \<open>SIGNAL_EVENT\<close> message for the orchestrator.\<close>

record signal_event_message =
  m_validatorId :: string
  m_signalId :: string
  m_srcChainId :: string
  m_dstChainId :: string
  m_txHash :: string
  m_requestId :: string

datatype log_level = INFO | ERROR

text \<open>
  The collaborators of the node are parameters: the TSS service, whose
  \<open>initiateSigning\<close> changes the state of the service and may throw (the flag); the
  part of the revenue tracker that talks to its database, \<open>recordSignature\<close>, with the
  transaction hash, the chain and the amount, which may throw too; and the socket to the
  orchestrator, whose \<open>send\<close> may throw.
\<close>

record ('t, 'r) node_env =
  validatorId :: string
  initiateSigning :: "SigningRequest \<Rightarrow> 't \<Rightarrow> bool \<times> 't"
  recordSignature :: "string \<Rightarrow> string \<Rightarrow> string \<Rightarrow> 'r \<Rightarrow> bool \<times> 'r"
  send_fails :: "signal_event_message \<Rightarrow> bool"

text \<open>
  The node: the lines it has logged itself (level and message, without the values printed
  in it), the TSS service and the requests passed to its \<open>initiateSigning\<close> so far, the
  revenue tracker (with its database and what it logs), whether the socket to the
  orchestrator exists and is open, and the messages sent on it.
\<close>

record ('t, 'r) node_state =
  log :: "(log_level \<times> string) list"
  tss :: 't
  revenue :: 'r
  initiated :: "SigningRequest list"
  ws_open :: bool
  ws_sent :: "signal_event_message list"

datatype node_error = TSSError | SendError

definition logger :: "log_level \<Rightarrow> string \<Rightarrow> ('t, 'r) node_state \<Rightarrow> ('t, 'r) node_state" where
  "logger level text st = st\<lparr>log := log st @ [(level, text)]\<rparr>"

text \<open>
  \<open>RevenueTracker.recordSignatureRequest\<close> records the request with the amount
  \<open>0.0\<close>; it catches whatever \<open>recordSignature\<close> throws and returns.
\<close>

definition recordSignatureRequest ::
  "('t, 'r) node_env \<Rightarrow> string \<Rightarrow> string \<Rightarrow> string \<Rightarrow> string \<Rightarrow> ('t, 'r) node_state \<Rightarrow> ('t, 'r) node_state" where
  "recordSignatureRequest env signalId srcChainId dstChainId hash st =
     st\<lparr>revenue := snd (recordSignature env hash srcChainId ''0.0'' (revenue st))\<rparr>"

definition signing_request :: "SignalEvent \<Rightarrow> SigningRequest" where
  "signing_request event =
     \<lparr> requestId = ev_signalId event @ ''-'' @ take 10 (ev_txHash event),
       txHash = ev_txHash event,
       sourceChain = ev_srcChainId event,
       destinationChain = ev_dstChainId event,
       message = Buffer_from_hex (drop 2 (ev_signalId event)),
       participants = [1, 2, 3] \<rparr>"

text \<open>The statements inside the \<open>try\<close> of \<open>handleSignalEvent\<close>: the error thrown, if any, and the state.\<close>

definition handleSignalEvent_try ::
  "('t, 'r) node_env \<Rightarrow> SignalEvent \<Rightarrow> ('t, 'r) node_state \<Rightarrow> node_error option \<times> ('t, 'r) node_state" where
  "handleSignalEvent_try env event st =
     (let signingRequest = signing_request event;
          st1 = logger INFO ''Initiating TSS signing for signal'' st;
          st2 = recordSignatureRequest env (ev_signalId event) (ev_srcChainId event)
                  (ev_dstChainId event) (ev_txHash event) st1;
          (thrown, tss') = initiateSigning env signingRequest (tss st2);
          st3 = st2\<lparr>tss := tss', initiated := initiated st2 @ [signingRequest]\<rparr>
      in if thrown then (Some TSSError, st3)
         else
           (let m = \<lparr> m_validatorId = validatorId env, m_signalId = ev_signalId event,
                       m_srcChainId = ev_srcChainId event, m_dstChainId = ev_dstChainId event,
                       m_txHash = ev_txHash event, m_requestId = requestId signingRequest \<rparr>
            in if ws_open st3 then
                 (if send_fails env m then (Some SendError, st3)
                  else (None, logger INFO ''TSS signing initiated for signal''
                                (st3\<lparr>ws_sent := ws_sent st3 @ [m]\<rparr>)))
               else (None, logger INFO ''TSS signing initiated for signal'' st3)))"

text \<open>\<open>handleSignalEvent\<close>: the \<open>catch\<close> logs the error and the function returns.\<close>

definition handleSignalEvent ::
  "('t, 'r) node_env \<Rightarrow> SignalEvent \<Rightarrow> ('t, 'r) node_state \<Rightarrow> node_error option \<times> ('t, 'r) node_state" where
  "handleSignalEvent env event st =
     (case handleSignalEvent_try env event st of
        (Some e, st1) \<Rightarrow> (None, logger ERROR ''Error handling signal event:'' st1)
      | (None, st1) \<Rightarrow> (None, st1))"

text \<open>The listener of \<open>signalEvent\<close> that \<open>setupChainListeners\<close> installs.\<close>

definition on_signalEvent ::
  "('t, 'r) node_env \<Rightarrow> SignalEvent \<Rightarrow> ('t, 'r) node_state \<Rightarrow> node_error option \<times> ('t, 'r) node_state" where
  "on_signalEvent env event st =
     handleSignalEvent env event
       (logger INFO ''Route: Chain''
         (logger INFO ''Signal ID:''
           (logger INFO ''Signal event detected on'' st)))"

text \<open>The listener called for one event after the other; an error it throws ends the run.\<close>

fun on_signalEvents ::
  "('t, 'r) node_env \<Rightarrow> SignalEvent list \<Rightarrow> ('t, 'r) node_state \<Rightarrow> node_error option \<times> ('t, 'r) node_state" where
  "on_signalEvents env [] st = (None, st)"
| "on_signalEvents env (event # rest) st =
     (case on_signalEvent env event st of
        (Some e, st1) \<Rightarrow> (Some e, st1)
      | (None, st1) \<Rightarrow> on_signalEvents env rest st1)"

subsection \<open>The canonical message of the specification\<close>

text \<open>
  The bytes the specification wants hashed: the signal id, then the source chain, the
  destination chain and the nonce as four big-endian bytes each, then the payload.
\<close>

definition uint32_be :: "nat \<Rightarrow> buffer" where
  "uint32_be n = [of_nat (n div 2 ^ 24), of_nat (n div 2 ^ 16), of_nat (n div 2 ^ 8), of_nat n]"

definition canonical_preimage_spec :: "SignalSentLog \<Rightarrow> buffer" where
  "canonical_preimage_spec l =
     log_signalId l @ uint32_be (log_srcChainId l) @ uint32_be (log_dstChainId l)
       @ uint32_be (log_nonce l) @ log_payload l"

section \<open>Contracts of the library primitives and a small instance\<close>

text \<open>
  What the key store relies on from AES-256-GCM as Node provides it: deciphering with the
  key, the initialisation vector and the tag of an encryption returns the plaintext, and
  the tag \<open>getAuthTag\<close> returns has the default length of 16 bytes.
\<close>

definition gcm_contract :: "crypto_ops \<Rightarrow> bool" where
  "gcm_contract ops =
     (\<forall>key iv plain.
        gcm_decrypt ops key iv (snd (gcm_encrypt ops key iv plain)) (fst (gcm_encrypt ops key iv plain))
          = Some plain
        \<and> length (snd (gcm_encrypt ops key iv plain)) = 16)"

text \<open>
  A small instance of the primitives and of the environment, on which the model runs on
  concrete inputs. The instance stands for no real cipher.
\<close>

definition demo_crypto :: crypto_ops where
  "demo_crypto = \<lparr>
     pbkdf2Sync = (\<lambda>password salt iterations keylen digest. take keylen salt),
     gcm_encrypt = (\<lambda>key iv plain. (map (\<lambda>b. b + 1) plain, replicate 16 0)),
     gcm_decrypt = (\<lambda>key iv tag encrypted. Some (map (\<lambda>b. b - 1) encrypted)),
     schnorr_sign = (\<lambda>messageHash keyShare. Some (messageHash @ keyShare)),
     schnorr_getPublicKey = (\<lambda>keyShare. Some keyShare) \<rparr>"

definition demo_env :: os_env where
  "demo_env = \<lparr> entropy = (\<lambda>i. of_nat i), write_fails = (\<lambda>p. False), cwd = ''/srv'' \<rparr>"

definition os0 :: os_state where
  "os0 = \<lparr> files = Map.empty, rnd_pos = 0 \<rparr>"

definition demo_metadata :: HSMKeyMetadata where
  "demo_metadata = \<lparr> md_keyId = ''validator-party-1'', md_algorithm = SCHNORR_SECP256K1,
     md_createdAt = 0, md_extractable = False, md_usages = [''sign''] \<rparr>"

text \<open>A file-based store with no \<open>encryption\<close> entry, and one with a password.\<close>

definition plain_config :: HSMConfig where
  "plain_config = \<lparr> hsm_provider = FILE_BASED, keyPath = Some ''/keys'', encryption = None \<rparr>"

definition password_config :: HSMConfig where
  "password_config = \<lparr> hsm_provider = FILE_BASED, keyPath = Some ''/keys'',
     encryption = Some \<lparr> enc_algorithm = ''aes-256-gcm'', enc_password = ''pw'' \<rparr> \<rparr>"

text \<open>
  A 3-of-5 ceremony seen from party 1, two random streams that are constant, and a service
  whose coefficients are 5, 7 and 11. Of the received shares, the one from party 2 is
  addressed to party 1 and the one from party 3 is not.
\<close>

definition demo_config :: DKGConfig where
  "demo_config = \<lparr> partyId = 1, threshold = 3, totalParties = 5, timeout = 1000, hsmStore = None \<rparr>"

definition zero_env :: os_env where
  "zero_env = \<lparr> entropy = (\<lambda>i. 0), write_fails = (\<lambda>p. False), cwd = ''/srv'' \<rparr>"

definition ff_env :: os_env where
  "ff_env = \<lparr> entropy = (\<lambda>i. 255), write_fails = (\<lambda>p. False), cwd = ''/srv'' \<rparr>"

definition share_of :: "int \<Rightarrow> int \<Rightarrow> int \<Rightarrow> DKGShare" where
  "share_of sender receiver v =
     \<lparr> fromParty = sender, toParty = receiver, encryptedShare = padStart0 64 (toString16 v),
       s_proof = ''simplified-proof'' \<rparr>"

definition demo_service :: dkg_service where
  "demo_service = \<lparr> receivedCommitments = [],
     receivedShares = [(2, share_of 2 1 6), (3, share_of 3 5 9)],
     receivedPublicKeyShares = [], myCommitment = None, myKeyShare = None,
     myPublicKeyShare = None, aggregatedPublicKey = None, coefficients = Some [5, 7, 11] \<rparr>"

text \<open>
  The same service after party 2, whose coefficients are 1, 2 and 3 and whose polynomial
  is therefore 6 at the point 1, has sent the value 7 to party 1.
\<close>

definition corrupted_service :: dkg_service where
  "corrupted_service = demo_service \<lparr> receivedShares := [(2, share_of 2 1 7)] \<rparr>"

text \<open>
  Two logs that differ in their payload alone, a node whose socket is open, a TSS service
  without state that accepts every request and one that throws on every request.
\<close>

definition log_dead :: SignalSentLog where
  "log_dead = \<lparr> log_signalId = replicate 32 1, log_srcChainId = 1, log_dstChainId = 56,
     log_srcAddress = ''0xaa'', log_dstAddress = ''0xbb'', log_nonce = 7,
     log_payload = [0xde, 0xad], log_timestamp = 1700000000, log_txHash = ''0xabcdef0123456789'',
     log_blockNumber = 100 \<rparr>"

definition log_beef :: SignalSentLog where
  "log_beef = log_dead \<lparr> log_payload := [0xbe, 0xef] \<rparr>"

definition accepting_env :: "(unit, unit) node_env" where
  "accepting_env = \<lparr> validatorId = ''validator-1'', initiateSigning = (\<lambda>r t. (False, t)),
     recordSignature = (\<lambda>h c a r. (False, r)), send_fails = (\<lambda>m. False) \<rparr>"

definition throwing_env :: "(unit, unit) node_env" where
  "throwing_env = \<lparr> validatorId = ''validator-1'', initiateSigning = (\<lambda>r t. (True, t)),
     recordSignature = (\<lambda>h c a r. (True, r)), send_fails = (\<lambda>m. True) \<rparr>"

definition node0 :: "(unit, unit) node_state" where
  "node0 = \<lparr> log = [], tss = (), revenue = (), initiated = [], ws_open = True, ws_sent = [] \<rparr>"

text \<open>
  A ceremony of five parties seen from party 1, with a timeout of 1000 ms and timers that
  fire on time. The curve is a stub with a single point. All four other parties send their
  commitments; parties 2, 3 and 5 go on and send a share and their public key share, party
  4 sends nothing more. In the second world it is party 3 that sends nothing more.
\<close>

definition demo_curve :: "unit curve_ops" where
  "demo_curve = \<lparr> base_multiply_hex = (\<lambda>k. Some ''02c0ffee''), sha256_hex = (\<lambda>s. ''digest''),
     point_fromHex = (\<lambda>b. Some ()), point_add = (\<lambda>a b. ()), point_toRawBytes = (\<lambda>p. [2]) \<rparr>"

definition demo_ctx :: "unit dkg_ctx" where
  "demo_ctx = \<lparr> dkg_config = demo_config, dkg_crypto = demo_crypto, dkg_curve = demo_curve,
     dkg_osenv = demo_env, lateness = (\<lambda>k. 0) \<rparr>"

definition commitment_of :: "int \<Rightarrow> string \<Rightarrow> DKGCommitment" where
  "commitment_of p prf =
     \<lparr> c_partyId = p, commitments = [''02c0ffee'', ''02c0ffee'', ''02c0ffee''], c_proof = prf,
       c_timestamp = 0 \<rparr>"

definition empty_service :: dkg_service where
  "empty_service = \<lparr> receivedCommitments = [], receivedShares = [], receivedPublicKeyShares = [],
     myCommitment = None, myKeyShare = None, myPublicKeyShare = None, aggregatedPublicKey = None,
     coefficients = None \<rparr>"

definition world_with :: "(int \<times> orch_message) list \<Rightarrow> dkg_world" where
  "world_with arrivals =
     \<lparr> service = empty_service, now = 0, inbox = arrivals, emitted = [], dkg_os = os0, timers = 0 \<rparr>"

text \<open>
  A world in which the four commitments have been received; the one of party 2 carries the
  empty string as its proof.
\<close>

definition world_forged_proof :: dkg_world where
  "world_forged_proof =
     (world_with [])\<lparr>service := empty_service\<lparr>receivedCommitments :=
        [(2, commitment_of 2 []), (3, commitment_of 3 ''digest''),
         (4, commitment_of 4 ''digest''), (5, commitment_of 5 ''digest'')]\<rparr>\<rparr>"


lemma smod_nonneg: "0 \<le> a \<Longrightarrow> 0 < b \<Longrightarrow> (a::int) smod b = a mod b"
  by (cases "a = 0") (simp_all add: smod_int_alt_def)

lemma secp256k1_n_pos: "0 < secp256k1_n"
  by (simp add: secp256k1_n_def)

section \<open>Lemmas: hexadecimal strings and buffers\<close>

lemma unhex_hexdigit: "d < 16 \<Longrightarrow> unhex (hexdigit d) = Some d"
proof -
  assume "d < 16"
  then have "d = 0 \<or> d = 1 \<or> d = 2 \<or> d = 3 \<or> d = 4 \<or> d = 5 \<or> d = 6 \<or> d = 7 \<or> d = 8
      \<or> d = 9 \<or> d = 10 \<or> d = 11 \<or> d = 12 \<or> d = 13 \<or> d = 14 \<or> d = 15"
    by arith
  then show ?thesis
    by (elim disjE) (simp_all add: hexdigit_def hexchars_def unhex_def)
qed

lemma hex_accum_append:
  "hex_accum acc (s @ t) = (case hex_accum acc s of None \<Rightarrow> None | Some a \<Rightarrow> hex_accum a t)"
  by (induction s arbitrary: acc) (auto split: option.splits)

lemma hex_accum_hex_of_nat: "hex_accum 0 (hex_of_nat n) = Some (int n)"
proof (induction n rule: hex_of_nat.induct)
  case (1 n)
  show ?case
  proof (cases "n < 16")
    case True
    then show ?thesis by (simp add: hex_of_nat.simps [of n] unhex_hexdigit)
  next
    case False
    with 1 have "hex_accum 0 (hex_of_nat (n div 16)) = Some (int (n div 16))" by simp
    with False show ?thesis
      by (simp add: hex_of_nat.simps [of n] hex_accum_append unhex_hexdigit) presburger
  qed
qed

lemma hex_of_nat_nonempty: "hex_of_nat n \<noteq> []"
  by (subst hex_of_nat.simps) simp

lemma unhex_zero: "unhex CHR ''0'' = Some 0"
  by (simp add: unhex_def)

lemma hex_accum_zeros: "hex_accum 0 (replicate k CHR ''0'' @ s) = hex_accum 0 s"
  by (induction k) (simp_all add: unhex_zero)

lemma unhex_not_whitespace: "unhex c \<noteq> None \<Longrightarrow> \<not> is_whitespace c"
  by (auto simp: unhex_def is_whitespace_def Let_def split: if_splits)

lemma trim_end_id: "s \<noteq> [] \<Longrightarrow> \<not> is_whitespace (last s) \<Longrightarrow> trim_end s = s"
  by (cases s rule: rev_cases) (simp_all add: trim_end_def)

lemma last_hex_of_nat: "unhex (last (hex_of_nat n)) \<noteq> None"
  by (subst hex_of_nat.simps) (simp add: unhex_hexdigit)

lemma trim_end_padded: "0 \<le> v \<Longrightarrow> trim_end (padStart0 k (toString16 v)) = padStart0 k (toString16 v)"
  by (rule trim_end_id)
    (simp_all add: padStart0_def toString16_def hex_of_nat_nonempty unhex_not_whitespace last_hex_of_nat)

lemma BigInt_0x_padded: "0 \<le> v \<Longrightarrow> BigInt_0x (padStart0 k (toString16 v)) = Some v"
  by (simp add: trim_end_padded BigInt_0x_def)
    (simp add: padStart0_def toString16_def hex_accum_zeros hex_accum_hex_of_nat hex_of_nat_nonempty)

lemma foldl_be_step:
  "foldl (\<lambda>acc b. 256 * acc + uint (b::byte)) acc bs = acc * 256 ^ length bs + be_value bs"
proof (induction bs arbitrary: acc)
  case Nil
  show ?case by (simp add: be_value_def)
next
  case (Cons b bs)
  have "foldl (\<lambda>acc b. 256 * acc + uint (b::byte)) acc (b # bs)
          = (256 * acc + uint b) * 256 ^ length bs + be_value bs"
    by (simp add: Cons.IH)
  moreover have "be_value (b # bs) = uint b * 256 ^ length bs + be_value bs"
    using Cons.IH [of "uint b"] by (simp add: be_value_def)
  ultimately show ?case by (simp add: algebra_simps)
qed

lemma be_value_Cons: "be_value (b # bs) = uint b * 256 ^ length bs + be_value bs"
  using foldl_be_step [of "uint b" bs] by (simp add: be_value_def)

lemma be_value_bounds: "0 \<le> be_value bs \<and> be_value bs < 256 ^ length bs"
proof (induction bs)
  case Nil
  show ?case by (simp add: be_value_def)
next
  case (Cons b bs)
  define P :: int where "P = 256 ^ length bs"
  have "uint b < 256" using uint_lt2p [of b] by simp
  then have "uint b \<le> 255" by simp
  moreover have "0 \<le> P" by (simp add: P_def)
  ultimately have "uint b * P \<le> 255 * P"
    by (rule mult_right_mono)
  moreover have "0 \<le> uint b * P" using \<open>0 \<le> P\<close> by simp
  moreover have "be_value (b # bs) = uint b * P + be_value bs"
    by (simp add: be_value_Cons P_def)
  moreover have "(256::int) ^ length (b # bs) = 256 * P" by (simp add: P_def)
  ultimately show ?case using Cons unfolding P_def [symmetric] by linarith
qed

lemma hex_accum_toString_hex:
  "hex_accum acc (toString_hex bs) = Some (foldl (\<lambda>acc b. 256 * acc + uint (b::byte)) acc bs)"
proof (induction bs arbitrary: acc)
  case Nil
  show ?case by simp
next
  case (Cons b bs)
  have lt: "unat b < 256" using unsigned_less [of b, where ?'a = nat] by simp
  then have hi: "unat b div 16 < 16" and lo: "unat b mod 16 < 16" by simp_all
  have e: "16 * (16 * acc + int (unat b div 16)) + int (unat b mod 16) = 256 * acc + uint b"
    by (simp add: zdiv_int zmod_int)
  have step: "hex_accum acc (toString_hex (b # bs))
      = hex_accum (16 * (16 * acc + int (unat b div 16)) + int (unat b mod 16)) (toString_hex bs)"
    by (simp add: unhex_hexdigit [OF hi] unhex_hexdigit [OF lo])
  show ?case
    by (simp only: step e Cons.IH foldl_Cons)
qed

lemma toString_hex_last: "bs \<noteq> [] \<Longrightarrow> toString_hex bs \<noteq> [] \<and> unhex (last (toString_hex bs)) \<noteq> None"
proof (induction bs)
  case Nil
  then show ?case by simp
next
  case (Cons b bs)
  have "unat b < 256" using unsigned_less [of b, where ?'a = nat] by simp
  then have lo: "unat b mod 16 < 16" by simp
  show ?case
  proof (cases "bs = []")
    case True
    then show ?thesis by (simp add: unhex_hexdigit [OF lo])
  next
    case False
    with Cons show ?thesis by simp
  qed
qed

lemma BigInt_0x_toString_hex: "bs \<noteq> [] \<Longrightarrow> BigInt_0x (toString_hex bs) = Some (be_value bs)"
proof -
  assume n: "bs \<noteq> []"
  then have "trim_end (toString_hex bs) = toString_hex bs"
    using toString_hex_last [OF n] by (intro trim_end_id) (simp_all add: unhex_not_whitespace)
  with toString_hex_last [OF n] show ?thesis
    by (simp add: BigInt_0x_def hex_accum_toString_hex be_value_def)
qed

lemma Buffer_from_hex_toString_hex: "Buffer_from_hex (toString_hex bs) = bs"
proof (induction bs)
  case Nil
  show ?case by simp
next
  case (Cons b bs)
  have lt: "unat b < 256" using unsigned_less [of b, where ?'a = nat] by simp
  then have hi: "unat b div 16 < 16" and lo: "unat b mod 16 < 16" by simp_all
  have "(of_nat (16 * (unat b div 16) + unat b mod 16) :: byte) = of_nat (unat b)"
    by (simp only: mult_div_mod_eq)
  then have "(of_nat (16 * (unat b div 16) + unat b mod 16) :: byte) = b" by simp
  with Cons show ?case
    by (simp add: unhex_hexdigit [OF hi] unhex_hexdigit [OF lo])
qed

lemma unhex_less: "unhex c = Some d \<Longrightarrow> d < 16"
  by (auto simp: unhex_def Let_def split: if_splits)

lemma hex_accum_Buffer_from_hex:
  "even (length s) \<Longrightarrow> \<forall>c\<in>set s. unhex c \<noteq> None \<Longrightarrow>
   hex_accum acc s = Some (foldl (\<lambda>acc b. 256 * acc + uint (b::byte)) acc (Buffer_from_hex s))"
proof (induction s arbitrary: acc rule: Buffer_from_hex.induct)
  case (1 a b rest)
  from "1.prems" obtain x y where x: "unhex a = Some x" and y: "unhex b = Some y" by auto
  have "x < 16" "y < 16" using x y by (auto dest: unhex_less)
  then have "16 * x + y < 256" by simp
  then have "unat (of_nat (16 * x + y) :: byte) = 16 * x + y"
    by (simp only: unat_of_nat) simp
  then have "uint (of_nat (16 * x + y) :: byte) = int (16 * x + y)"
    by (simp only: uint_nat)
  then have u: "uint (of_nat (16 * x + y) :: byte) = 16 * int x + int y"
    by (simp del: of_nat_add of_nat_mult add: of_nat_add [symmetric])
  have ih: "hex_accum (16 * (16 * acc + int x) + int y) rest =
        Some (foldl (\<lambda>acc b. 256 * acc + uint (b::byte)) (16 * (16 * acc + int x) + int y) (Buffer_from_hex rest))"
    using "1.IH" [OF refl x y] "1.prems" by simp
  have e: "256 * acc + (16 * int x + int y) = 16 * (16 * acc + int x) + int y" by simp
  have step: "hex_accum acc (a # b # rest) = hex_accum (16 * (16 * acc + int x) + int y) rest"
    using x y by simp
  have bf: "Buffer_from_hex (a # b # rest) = of_nat (16 * x + y) # Buffer_from_hex rest"
    using x y by (simp del: of_nat_add of_nat_mult)
  show ?case
    by (simp only: step bf foldl_Cons u e ih)
qed simp_all

lemma set_hex_of_nat: "\<forall>c\<in>set (hex_of_nat n). unhex c \<noteq> None"
proof (induction n rule: hex_of_nat.induct)
  case (1 n)
  show ?case
  proof (cases "n < 16")
    case True
    then show ?thesis by (simp add: hex_of_nat.simps [of n] unhex_hexdigit)
  next
    case False
    with 1 show ?thesis
      by (simp add: hex_of_nat.simps [of n] unhex_hexdigit)
  qed
qed

lemma length_hex_of_nat: "n < 16 ^ k \<Longrightarrow> 0 < k \<Longrightarrow> length (hex_of_nat n) \<le> k"
proof (induction n arbitrary: k rule: hex_of_nat.induct)
  case (1 n)
  show ?case
  proof (cases "n < 16")
    case True
    with "1.prems" show ?thesis by (simp add: hex_of_nat.simps [of n])
  next
    case False
    obtain j where k: "k = Suc j" using "1.prems" by (cases k) auto
    have "0 < j" using False "1.prems" k by (cases j) auto
    moreover have "n div 16 < 16 ^ j" using "1.prems" k by (simp add: less_mult_imp_div_less mult.commute)
    ultimately have "length (hex_of_nat (n div 16)) \<le> j" using "1.IH" False by simp
    with False k show ?thesis by (simp add: hex_of_nat.simps [of n])
  qed
qed

lemma length_hex64:
  assumes "0 \<le> v" "v < 2 ^ 256"
  shows "length (padStart0 64 (toString16 v)) = 64"
proof -
  have "nat v < 16 ^ 64" using assms by simp
  then have "length (hex_of_nat (nat v)) \<le> 64" by (rule length_hex_of_nat) simp
  with assms show ?thesis by (simp add: padStart0_def toString16_def)
qed

lemma be_value_hex64:
  assumes "0 \<le> v" "v < 2 ^ 256"
  shows "be_value (Buffer_from_hex (padStart0 64 (toString16 v))) = v"
    and "length (Buffer_from_hex (padStart0 64 (toString16 v))) = 32"
proof -
  let ?s = "padStart0 64 (toString16 v)"
  have len: "length ?s = 64" using assms by (rule length_hex64)
  have valid: "\<forall>c\<in>set ?s. unhex c \<noteq> None"
    using assms set_hex_of_nat [of "nat v"] by (auto simp: padStart0_def toString16_def unhex_zero)
  have "hex_accum 0 ?s = Some (be_value (Buffer_from_hex ?s))"
    using hex_accum_Buffer_from_hex [of ?s 0] len valid by (simp add: be_value_def)
  moreover have "hex_accum 0 ?s = Some v"
    using BigInt_0x_padded [OF assms(1), of 64] trim_end_padded [OF assms(1), of 64]
    by (auto simp: BigInt_0x_def split: if_splits)
  ultimately show "be_value (Buffer_from_hex ?s) = v" by simp
  have "\<And>s. even (length s) \<Longrightarrow> \<forall>c\<in>set s. unhex c \<noteq> None \<Longrightarrow> 2 * length (Buffer_from_hex s) = length s"
  proof -
    fix s :: string show "even (length s) \<Longrightarrow> \<forall>c\<in>set s. unhex c \<noteq> None \<Longrightarrow> 2 * length (Buffer_from_hex s) = length s"
      by (induction s rule: Buffer_from_hex.induct) auto
  qed
  from this [of ?s] len valid show "length (Buffer_from_hex ?s) = 32" by simp
qed

section \<open>Lemmas: the polynomial loop\<close>

lemma poly_sum_Nil: "poly_sum [] x = 0"
  by (simp add: poly_sum_def)

lemma poly_sum_Cons: "poly_sum (c # cs) x = c + x * poly_sum cs x"
proof -
  have "poly_sum (c # cs) x = (c # cs) ! 0 * x ^ 0 + (\<Sum>k<length cs. (c # cs) ! Suc k * x ^ Suc k)"
    unfolding poly_sum_def length_Cons by (rule sum.lessThan_Suc_shift)
  also have "\<dots> = c + (\<Sum>k<length cs. x * (cs ! k * x ^ k))"
    by (simp add: mult_ac)
  also have "\<dots> = c + x * poly_sum cs x"
    by (simp add: poly_sum_def sum_distrib_left)
  finally show ?thesis .
qed

lemma mod_combine: "((a mod n) + (b mod n) * c) mod n = (a + b * c) mod (n::int)"
proof -
  have "((a mod n) + (b mod n) * c) mod n = (a + (b mod n) * c) mod n"
    by (rule mod_add_left_eq)
  also have "\<dots> = (a + ((b mod n) * c) mod n) mod n"
    by (rule mod_add_right_eq [symmetric])
  also have "\<dots> = (a + (b * c) mod n) mod n"
    by (simp only: mod_mult_left_eq)
  also have "\<dots> = (a + b * c) mod n"
    by (rule mod_add_right_eq)
  finally show ?thesis .
qed

lemma eval_loop_mod:
  assumes "0 \<le> x" "\<forall>c\<in>set cs. 0 \<le> c" "0 \<le> s" "0 \<le> p"
  shows "eval_loop x s p cs mod secp256k1_n = (s + p * poly_sum cs x) mod secp256k1_n"
  using assms
proof (induction cs arbitrary: s p)
  case Nil
  show ?case by (simp add: poly_sum_Nil)
next
  case (Cons c cs)
  let ?n = secp256k1_n
  have n: "0 < ?n" by (rule secp256k1_n_pos)
  have c: "0 \<le> c" using Cons.prems by simp
  have a: "(s + c * p) smod ?n = (s + c * p) mod ?n"
    using Cons.prems c n by (intro smod_nonneg) simp_all
  have b: "(p * x) smod ?n = (p * x) mod ?n"
    using Cons.prems n by (intro smod_nonneg) simp_all
  have "eval_loop x s p (c # cs) mod ?n
        = eval_loop x ((s + c * p) mod ?n) ((p * x) mod ?n) cs mod ?n"
    by (simp add: a b)
  also have "\<dots> = ((s + c * p) mod ?n + (p * x) mod ?n * poly_sum cs x) mod ?n"
    using Cons.prems n by (intro Cons.IH) simp_all
  also have "\<dots> = ((s + c * p) + (p * x) * poly_sum cs x) mod ?n"
    by (rule mod_combine)
  also have "(s + c * p) + (p * x) * poly_sum cs x = s + p * poly_sum (c # cs) x"
    by (simp add: poly_sum_Cons algebra_simps)
  finally show ?case .
qed

lemma eval_loop_range:
  assumes "0 \<le> x" "\<forall>c\<in>set cs. 0 \<le> c" "0 \<le> s" "s < secp256k1_n" "0 \<le> p"
  shows "0 \<le> eval_loop x s p cs \<and> eval_loop x s p cs < secp256k1_n"
  using assms
proof (induction cs arbitrary: s p)
  case Nil
  then show ?case by simp
next
  case (Cons c cs)
  let ?n = secp256k1_n
  have n: "0 < ?n" by (rule secp256k1_n_pos)
  have c: "0 \<le> c" using Cons.prems by simp
  have a: "(s + c * p) smod ?n = (s + c * p) mod ?n"
    using Cons.prems c n by (intro smod_nonneg) simp_all
  have b: "(p * x) smod ?n = (p * x) mod ?n"
    using Cons.prems n by (intro smod_nonneg) simp_all
  show ?case
    using Cons.prems n by (simp add: a b Cons.IH)
qed

lemma evaluate_polynomial_eq:
  assumes "0 \<le> x" "\<forall>c\<in>set cs. 0 \<le> c"
  shows "evaluate_polynomial cs x = poly_sum cs x mod secp256k1_n"
proof -
  have "0 \<le> evaluate_polynomial cs x \<and> evaluate_polynomial cs x < secp256k1_n"
    unfolding evaluate_polynomial_def using assms secp256k1_n_pos by (intro eval_loop_range) simp_all
  then have "evaluate_polynomial cs x = evaluate_polynomial cs x mod secp256k1_n" by simp
  also have "\<dots> = (0 + 1 * poly_sum cs x) mod secp256k1_n"
    unfolding evaluate_polynomial_def using assms by (intro eval_loop_mod) simp_all
  finally show ?thesis by simp
qed

section \<open>The key store: encryption of the key share\<close>

lemma encryptKeyShare_layout:
  "fst (encryptKeyShare ops env keyShare password os) =
     (let salt = map (entropy env) [rnd_pos os ..< rnd_pos os + 32];
          iv = map (entropy env) [rnd_pos os + 32 ..< rnd_pos os + 48];
          key = pbkdf2Sync ops password salt 100000 32 ''sha256''
      in salt @ iv @ snd (gcm_encrypt ops key iv keyShare) @ fst (gcm_encrypt ops key iv keyShare))"
  by (auto simp add: encryptKeyShare_def randomBytes_def Let_def add.commute split: prod.splits)

lemma decryptKeyShare_parts:
  assumes "length salt = 32" "length iv = 16" "length authTag = 16"
  shows "decryptKeyShare ops (salt @ iv @ authTag @ encrypted) password =
           (case gcm_decrypt ops (pbkdf2Sync ops password salt 100000 32 ''sha256'') iv authTag encrypted of
              None \<Rightarrow> Inl DecipherFailed | Some plain \<Rightarrow> Inr plain)"
  using assms by (simp add: decryptKeyShare_def subarray_def Let_def)

text \<open>
  Claim C8. For every key share and every password, \<open>decryptKeyShare\<close> applied to the
  output of \<open>encryptKeyShare\<close> with the same password returns the key share, and the
  output is a 32-byte salt, a 16-byte initialisation vector, the 16-byte tag and the
  ciphertext, in this order, under the key that PBKDF2 derives from the password and the
  salt with 100000 iterations of SHA-256 (32 bytes). The cipher is AES-256-GCM as Node
  provides it, taken with its contract \<open>gcm_contract\<close>.
\<close>

theorem encrypt_decrypt_roundtrip:
  assumes "gcm_contract ops"
  shows "decryptKeyShare ops (fst (encryptKeyShare ops env keyShare password os)) password = Inr keyShare
       \<and> (\<exists>salt iv authTag encrypted.
           fst (encryptKeyShare ops env keyShare password os) = salt @ iv @ authTag @ encrypted
           \<and> length salt = 32 \<and> length iv = 16 \<and> length authTag = 16
           \<and> (encrypted, authTag) =
               gcm_encrypt ops (pbkdf2Sync ops password salt 100000 32 ''sha256'') iv keyShare)"
proof -
  define salt where "salt = map (entropy env) [rnd_pos os ..< rnd_pos os + 32]"
  define iv where "iv = map (entropy env) [rnd_pos os + 32 ..< rnd_pos os + 48]"
  define key where "key = pbkdf2Sync ops password salt 100000 32 ''sha256''"
  define encrypted where "encrypted = fst (gcm_encrypt ops key iv keyShare)"
  define authTag where "authTag = snd (gcm_encrypt ops key iv keyShare)"
  have out: "fst (encryptKeyShare ops env keyShare password os) = salt @ iv @ authTag @ encrypted"
    by (simp add: encryptKeyShare_layout Let_def salt_def iv_def key_def encrypted_def authTag_def)
  have ls: "length salt = 32" and li: "length iv = 16"
    by (simp_all add: salt_def iv_def)
  have lt: "length authTag = 16"
    using assms by (simp add: gcm_contract_def authTag_def)
  have dec: "gcm_decrypt ops key iv authTag encrypted = Some keyShare"
    using assms by (simp add: gcm_contract_def authTag_def encrypted_def)
  have "decryptKeyShare ops (salt @ iv @ authTag @ encrypted) password = Inr keyShare"
    using dec by (simp add: decryptKeyShare_parts [OF ls li lt] key_def)
  moreover have "(encrypted, authTag) = gcm_encrypt ops key iv keyShare"
    by (simp add: encrypted_def authTag_def)
  ultimately show ?thesis
    using out ls li lt unfolding key_def by metis
qed

theorem encrypt_decrypt_roundtrip_witness:
  "gcm_contract demo_crypto
   \<and> decryptKeyShare demo_crypto (fst (encryptKeyShare demo_crypto demo_env [1, 2, 3] ''pw'' os0)) ''pw''
       = Inr [1, 2, 3]
   \<and> length (fst (encryptKeyShare demo_crypto demo_env [1, 2, 3] ''pw'' os0)) = 67"
proof -
  have c: "gcm_contract demo_crypto"
    by (simp add: gcm_contract_def demo_crypto_def comp_def)
  from encrypt_decrypt_roundtrip [OF c, of demo_env "[1, 2, 3]" "''pw''" os0]
  show ?thesis using c by (auto simp: demo_crypto_def)
qed

section \<open>The key store: what reaches the disk\<close>

lemma encryptKeyShare_files: "files (snd (encryptKeyShare ops env ks pw os)) = files os"
  by (simp add: encryptKeyShare_def randomBytes_def Let_def split: prod.splits)

lemma file_storeKeyShare_files:
  "files (snd (file_storeKeyShare ops env config ks md os)) =
     (let kp = keyshare_path env config (md_keyId md);
          mp = metadata_path env config (md_keyId md);
          stored = (case configured_password config of
                      None \<Rightarrow> ks
                    | Some pw \<Rightarrow> fst (encryptKeyShare ops env ks pw os))
      in if write_fails env kp then files os
         else if write_fails env mp then (files os)(kp \<mapsto> Bytes stored)
         else (files os)(kp \<mapsto> Bytes stored, mp \<mapsto> MetadataJson md))"
proof (cases "configured_password config")
  case None
  then show ?thesis
    by (simp add: file_storeKeyShare_def writeFile_def Let_def)
next
  case (Some pw)
  obtain d os1 where e: "encryptKeyShare ops env ks pw os = (d, os1)"
    by (cases "encryptKeyShare ops env ks pw os")
  have f: "files os1 = files os"
    using encryptKeyShare_files [of ops env ks pw os] e by simp
  from Some e f show ?thesis
    by (simp add: file_storeKeyShare_def writeFile_def Let_def)
qed

lemma demo_keyshare_path:
  "keyshare_path demo_env plain_config ''validator-party-1'' = ''/keys/validator-party-1.keyshare''"
  "keyshare_path demo_env password_config ''validator-party-1'' = ''/keys/validator-party-1.keyshare''"
  "metadata_path demo_env plain_config ''validator-party-1'' = ''/keys/validator-party-1.metadata.json''"
  "metadata_path demo_env password_config ''validator-party-1'' = ''/keys/validator-party-1.metadata.json''"
  by (simp_all add: keyshare_path_def metadata_path_def keyDir_def path_join_def path_normalize_def
      plain_config_def password_config_def)

text \<open>
  Claim C9, as the code has it. \<open>sign\<close> and \<open>getPublicKey\<close> leave the operating
  system as it is, for every configuration, and so does \<open>storeKeyShare\<close> of every store
  but the file-based one. The file-based \<open>storeKeyShare\<close> changes at most two files and
  no other: the key-share file \<open>path.join(keyDir, keyId + '.keyshare')\<close>, which receives
  the output of \<open>encryptKeyShare\<close> when the configuration has a password that is not
  empty and the key share itself when it has none, and then the metadata file
  \<open>path.join(keyDir, keyId + '.metadata.json')\<close>, which receives the metadata. A
  write that fails ends the operation and leaves the files written before it.
\<close>

theorem keystore_disk_writes:
  "snd (HSMKeyStore_sign ops env config messageHash kid os) = os
   \<and> snd (HSMKeyStore_getPublicKey ops env config kid os) = os
   \<and> snd (HSMKeyStore_storeKeyShare ops env config ks md os) =
       (if hsm_provider config = FILE_BASED then snd (file_storeKeyShare ops env config ks md os)
        else os)
   \<and> files (snd (HSMKeyStore_storeKeyShare ops env config ks md os)) =
       (if hsm_provider config = FILE_BASED then
          (let kp = keyshare_path env config (md_keyId md);
               mp = metadata_path env config (md_keyId md);
               stored = (case configured_password config of
                           None \<Rightarrow> ks
                         | Some pw \<Rightarrow> fst (encryptKeyShare ops env ks pw os))
           in if write_fails env kp then files os
              else if write_fails env mp then (files os)(kp \<mapsto> Bytes stored)
              else (files os)(kp \<mapsto> Bytes stored, mp \<mapsto> MetadataJson md))
        else files os)"
proof -
  have s: "snd (HSMKeyStore_sign ops env config messageHash kid os) = os"
    by (simp add: HSMKeyStore_sign_def file_sign_def split: provider.splits sum.splits option.splits)
  have g: "snd (HSMKeyStore_getPublicKey ops env config kid os) = os"
    by (simp add: HSMKeyStore_getPublicKey_def file_getPublicKey_def
        split: provider.splits sum.splits option.splits)
  have w: "snd (HSMKeyStore_storeKeyShare ops env config ks md os) =
       (if hsm_provider config = FILE_BASED then snd (file_storeKeyShare ops env config ks md os)
        else os)"
    by (cases "hsm_provider config") (simp_all add: HSMKeyStore_storeKeyShare_def)
  show ?thesis
    unfolding w using s g by (simp only: file_storeKeyShare_files if_True if_False split: if_splits) simp
qed

theorem keystore_disk_writes_witness:
  "files (snd (HSMKeyStore_storeKeyShare demo_crypto demo_env password_config [1, 2, 3] demo_metadata os0))
     = [''/keys/validator-party-1.keyshare'' \<mapsto>
          Bytes (fst (encryptKeyShare demo_crypto demo_env [1, 2, 3] ''pw'' os0)),
        ''/keys/validator-party-1.metadata.json'' \<mapsto> MetadataJson demo_metadata]
   \<and> fst (encryptKeyShare demo_crypto demo_env [1, 2, 3] ''pw'' os0)
     = map of_nat [0 ..< 32] @ map of_nat [32 ..< 48] @ replicate 16 0 @ [2, 3, 4]"
proof -
  have c: "configured_password password_config = Some ''pw''"
    by (simp add: configured_password_def password_config_def)
  have p: "hsm_provider password_config = FILE_BASED"
    by (simp add: password_config_def)
  have k: "md_keyId demo_metadata = ''validator-party-1''"
    by (simp add: demo_metadata_def)
  have e: "fst (encryptKeyShare demo_crypto demo_env [1, 2, 3] ''pw'' os0)
     = map of_nat [0 ..< 32] @ map of_nat [32 ..< 48] @ replicate 16 0 @ [2, 3, 4]"
    by (simp add: encryptKeyShare_layout demo_crypto_def demo_env_def os0_def Let_def)
  have f: "\<not> write_fails demo_env q" for q
    by (simp add: demo_env_def)
  have o: "files os0 = Map.empty"
    by (simp add: os0_def)
  note t = keystore_disk_writes [of demo_crypto demo_env password_config "[]" "[]" os0 "[1, 2, 3]" demo_metadata]
  from t [THEN conjunct2, THEN conjunct2, THEN conjunct2]
  have "files (snd (HSMKeyStore_storeKeyShare demo_crypto demo_env password_config [1, 2, 3] demo_metadata os0))
     = [''/keys/validator-party-1.keyshare'' \<mapsto>
          Bytes (fst (encryptKeyShare demo_crypto demo_env [1, 2, 3] ''pw'' os0)),
        ''/keys/validator-party-1.metadata.json'' \<mapsto> MetadataJson demo_metadata]"
    by (simp only: p c k f o demo_keyshare_path if_True if_False Let_def option.case refl)
  with e show ?thesis by simp
qed

text \<open>
  The claim as stated fails: with no password configured, the file-based store writes the
  key share to its file byte for byte.
\<close>

theorem keyshare_plaintext_counterexample:
  "files (snd (HSMKeyStore_storeKeyShare demo_crypto demo_env plain_config [1, 2, 3] demo_metadata os0))
     ''/keys/validator-party-1.keyshare'' = Some (Bytes [1, 2, 3])"
proof -
  have c: "configured_password plain_config = None"
    by (simp add: configured_password_def plain_config_def)
  have p: "hsm_provider plain_config = FILE_BASED"
    by (simp add: plain_config_def)
  have k: "md_keyId demo_metadata = ''validator-party-1''"
    by (simp add: demo_metadata_def)
  have f: "\<not> write_fails demo_env q" for q
    by (simp add: demo_env_def)
  have "files (snd (HSMKeyStore_storeKeyShare demo_crypto demo_env plain_config [1, 2, 3] demo_metadata os0))
     = (files os0)(''/keys/validator-party-1.keyshare'' \<mapsto> Bytes [1, 2, 3],
                   ''/keys/validator-party-1.metadata.json'' \<mapsto> MetadataJson demo_metadata)"
    by (simp only: HSMKeyStore_storeKeyShare_def provider.case p file_storeKeyShare_files c k f
        demo_keyshare_path if_True if_False Let_def option.case)
  then show ?thesis by simp
qed

section \<open>The DKG service: the sampled coefficients\<close>

lemma sample_coefficients_eq:
  "sample_coefficients env t coeffs os =
     (None,
      coeffs @ map (\<lambda>k. be_value (map (entropy env) [rnd_pos os + 32 * k ..< rnd_pos os + 32 * k + 32])) [0 ..< t],
      os\<lparr>rnd_pos := rnd_pos os + 32 * t\<rparr>)"
proof (induction t arbitrary: coeffs os)
  case 0
  show ?case by simp
next
  case (Suc t)
  let ?bytes = "map (entropy env) [rnd_pos os ..< rnd_pos os + 32]"
  let ?os1 = "os\<lparr>rnd_pos := rnd_pos os + 32\<rparr>"
  have r: "randomBytes env 32 os = (?bytes, ?os1)"
    by (simp add: randomBytes_def)
  have "?bytes \<noteq> []" by simp
  then have b: "BigInt_0x (toString_hex ?bytes) = Some (be_value ?bytes)"
    by (rule BigInt_0x_toString_hex)
  have "sample_coefficients env (Suc t) coeffs os
          = sample_coefficients env t (coeffs @ [be_value ?bytes]) ?os1"
    by (simp only: sample_coefficients.simps r b prod.case Let_def option.case)
  also have "\<dots> = (None,
      (coeffs @ [be_value ?bytes]) @
        map (\<lambda>k. be_value (map (entropy env) [rnd_pos ?os1 + 32 * k ..< rnd_pos ?os1 + 32 * k + 32])) [0 ..< t],
      ?os1\<lparr>rnd_pos := rnd_pos ?os1 + 32 * t\<rparr>)"
    by (rule Suc.IH)
  finally show ?case
    by (simp add: map_upt_Suc add.assoc del: upt_Suc)
qed

text \<open>
  Claim C7, as the code has it. The sampling loop of round 1 never fails and leaves
  \<open>t\<close> coefficients; each is the big-endian value of the next 32 random bytes, so it
  lies between 0 and \<open>2^256 - 1\<close>. Nothing is reduced or rejected at sampling.
\<close>

theorem sampled_coefficients_range:
  "fst (sample_coefficients env t [] os) = None
   \<and> length (fst (snd (sample_coefficients env t [] os))) = t
   \<and> list_all (\<lambda>c. 0 \<le> c \<and> c < 2 ^ 256) (fst (snd (sample_coefficients env t [] os)))
   \<and> fst (snd (sample_coefficients env t [] os)) =
       map (\<lambda>k. be_value (map (entropy env) [rnd_pos os + 32 * k ..< rnd_pos os + 32 * k + 32])) [0 ..< t]"
proof -
  have "0 \<le> be_value (map (entropy env) [a ..< a + 32])
        \<and> be_value (map (entropy env) [a ..< a + 32]) < 2 ^ 256" for a
    using be_value_bounds [of "map (entropy env) [a ..< a + 32]"] by simp
  then show ?thesis
    by (simp add: sample_coefficients_eq list_all_iff)
qed

text \<open>
  The claim as stated fails: a random stream of zero bytes gives the coefficient 0, and a
  stream of bytes 255 gives \<open>2^256 - 1\<close>, which is not below the group order.
\<close>

theorem coefficient_out_of_range_counterexample:
  "fst (snd (sample_coefficients zero_env 3 [] os0)) = [0, 0, 0]
   \<and> fst (snd (sample_coefficients ff_env 3 [] os0)) = [2 ^ 256 - 1, 2 ^ 256 - 1, 2 ^ 256 - 1]
   \<and> \<not> (1 \<le> (0::int))
   \<and> \<not> (2 ^ 256 - 1 < secp256k1_n)"
proof -
  have "be_value (replicate n 0) = 0" for n
    by (induction n) (simp_all add: be_value_Cons, simp add: be_value_def)
  then have z: "be_value (replicate 32 0) = 0" .
  have "be_value (replicate n 255) = 256 ^ n - 1" for n
    by (induction n) (simp_all add: be_value_Cons, simp add: be_value_def)
  then have "be_value (replicate 32 255) = 256 ^ 32 - 1" .
  then have f: "be_value (replicate 32 255) = 2 ^ 256 - 1" by simp
  have r: "replicate 3 x = [x, x, x]" for x :: int
    by (simp add: numeral_3_eq_3)
  show ?thesis
    by (simp add: sample_coefficients_eq zero_env_def ff_env_def os0_def map_replicate_const z f r
        secp256k1_n_def)
qed

section \<open>The DKG service: shares and key share\<close>


lemma evaluate_polynomial_range:
  assumes "0 \<le> x" "\<forall>c\<in>set cs. 0 \<le> c"
  shows "0 \<le> evaluate_polynomial cs x \<and> evaluate_polynomial cs x < secp256k1_n"
  unfolding evaluate_polynomial_def using assms secp256k1_n_pos by (intro eval_loop_range) simp_all

lemma hex_accum_nonneg: "hex_accum acc s = Some v \<Longrightarrow> 0 \<le> acc \<Longrightarrow> 0 \<le> v"
  by (induction s arbitrary: acc) (auto split: option.splits)

lemma BigInt_0x_nonneg: "BigInt_0x s = Some v \<Longrightarrow> 0 \<le> v"
  by (auto simp: BigInt_0x_def split: if_splits dest: hex_accum_nonneg)

lemma addressed_values_nonneg: "\<forall>v\<in>set (addressed_values me rs). 0 \<le> v"
  by (induction me rs rule: addressed_values.induct) (auto split: option.splits dest: BigInt_0x_nonneg)

lemma add_received_eq:
  assumes "all_addressed_parse me rs" "0 \<le> tot"
  shows "add_received me tot rs =
           Inr (if addressed_values me rs = [] then tot
                else (tot + sum_list (addressed_values me rs)) mod secp256k1_n)"
  using assms
proof (induction rs arbitrary: tot)
  case Nil
  show ?case by simp
next
  case (Cons r rest)
  obtain sender share where r: "r = (sender, share)" by (cases r)
  show ?case
  proof (cases "toParty share = me")
    case False
    with Cons r show ?thesis by simp
  next
    case True
    with Cons.prems r obtain v where v: "BigInt_0x (encryptedShare share) = Some v" by auto
    have v0: "0 \<le> v" using v by (rule BigInt_0x_nonneg)
    let ?n = secp256k1_n
    have sm: "(tot + v) smod ?n = (tot + v) mod ?n"
      using Cons.prems v0 secp256k1_n_pos by (intro smod_nonneg) simp_all
    have nn: "0 \<le> (tot + v) mod ?n"
      using secp256k1_n_pos by simp
    have "all_addressed_parse me rest" using Cons.prems r by simp
    then have ih: "add_received me ((tot + v) mod ?n) rest =
           Inr (if addressed_values me rest = [] then (tot + v) mod ?n
                else ((tot + v) mod ?n + sum_list (addressed_values me rest)) mod ?n)"
      using nn by (rule Cons.IH)
    have "((tot + v) mod ?n + sum_list (addressed_values me rest)) mod ?n
            = (tot + v + sum_list (addressed_values me rest)) mod ?n"
      by (rule mod_add_left_eq)
    with ih show ?thesis
      using True v r by (simp add: sm add.assoc)
  qed
qed

lemma add_received_mod:
  assumes "all_addressed_parse me rs" "0 \<le> tot" "tot < secp256k1_n"
  shows "add_received me tot rs = Inr ((tot + sum_list (addressed_values me rs)) mod secp256k1_n)"
  using add_received_eq [OF assms(1,2)] assms(2,3) by (cases "addressed_values me rs = []") simp_all



lemma demo_addressed:
  "addressed_values 1 [(2, share_of 2 1 6), (3, share_of 3 5 9)] = [6]"
  "all_addressed_parse 1 [(2, share_of 2 1 6), (3, share_of 3 5 9)]"
  "addressed_values 1 [(2, share_of 2 1 7)] = [7]"
  "all_addressed_parse 1 [(2, share_of 2 1 7)]"
  by (simp_all add: share_of_def BigInt_0x_padded)

lemma demo_poly_values:
  "poly_sum [5, 7, 11] 1 mod secp256k1_n = 23"
  "poly_sum [5, 7, 11] 2 mod secp256k1_n = 63"
  "poly_sum [5, 7, 11] 3 mod secp256k1_n = 125"
  "poly_sum [5, 7, 11] 4 mod secp256k1_n = 209"
  "poly_sum [5, 7, 11] 5 mod secp256k1_n = 315"
  "poly_sum [1, 2, 3] 1 mod secp256k1_n = 6"
  by (simp_all add: poly_sum_Cons poly_sum_Nil secp256k1_n_def)


lemma round5_ComputeKeyShare_eq:
  assumes "coefficients svc = Some cs"
    and "\<forall>c\<in>set cs. 0 \<le> c"
    and "0 \<le> partyId cfg"
    and "all_addressed_parse (partyId cfg) (receivedShares svc)"
  shows "round5_ComputeKeyShare cfg svc =
     (None, svc\<lparr>myKeyShare := Some (Buffer_from_hex (padStart0 64 (toString16
        ((poly_sum cs (partyId cfg) mod secp256k1_n
           + sum_list (addressed_values (partyId cfg) (receivedShares svc))) mod secp256k1_n))))\<rparr>)"
proof -
  let ?n = secp256k1_n
  let ?i = "partyId cfg"
  have own: "evaluate_polynomial cs ?i = poly_sum cs ?i mod ?n"
    by (rule evaluate_polynomial_eq [OF assms(3) assms(2)])
  have rng: "0 \<le> evaluate_polynomial cs ?i \<and> evaluate_polynomial cs ?i < ?n"
    by (rule evaluate_polynomial_range [OF assms(3) assms(2)])
  have "add_received ?i (evaluate_polynomial cs ?i) (receivedShares svc) =
          Inr ((poly_sum cs ?i mod ?n + sum_list (addressed_values ?i (receivedShares svc))) mod ?n)"
    using add_received_mod [OF assms(4), of "evaluate_polynomial cs ?i"] rng
    by (simp add: own)
  then show ?thesis
    by (simp add: round5_ComputeKeyShare_def assms(1))
qed

text \<open>
  Claim C3 (the code departs from it). Party 2, whose coefficients are 1, 2 and 3, owes
  party 1 the value 6; the share party 1 has received from it says 7. Round 4 returns
  without an error and without a change, and round 5 adds the 7: the key share is
  \<open>23 + 7 = 30\<close>, where 23 is the party's own share.
\<close>

theorem corrupted_share_accepted:
  "evaluate_polynomial [1, 2, 3] 1 = 6
   \<and> map (\<lambda>(sender, s). (sender, toParty s, BigInt_0x (encryptedShare s))) (receivedShares corrupted_service)
       = [(2, 1, Some 7)]
   \<and> round4_VerifyShares demo_config corrupted_service = (None, corrupted_service)
   \<and> fst (round5_ComputeKeyShare demo_config corrupted_service) = None
   \<and> map_option be_value (myKeyShare (snd (round5_ComputeKeyShare demo_config corrupted_service))) = Some 30"
proof -
  have e: "evaluate_polynomial [1, 2, 3] 1 = 6"
    using evaluate_polynomial_eq [of 1 "[1, 2, 3]"] by (simp add: demo_poly_values)
  have c: "coefficients corrupted_service = Some [5, 7, 11]"
    and r: "receivedShares corrupted_service = [(2, share_of 2 1 7)]"
    by (simp_all add: corrupted_service_def demo_service_def)
  have p1: "partyId demo_config = 1"
    by (simp add: demo_config_def)
  have m: "map (\<lambda>(sender, s). (sender, toParty s, BigInt_0x (encryptedShare s))) (receivedShares corrupted_service)
       = [(2, 1, Some 7)]"
    by (simp add: r share_of_def BigInt_0x_padded)
  have m30: "30 mod secp256k1_n = 30"
    by (simp add: secp256k1_n_def)
  have "round5_ComputeKeyShare demo_config corrupted_service =
     (None, corrupted_service\<lparr>myKeyShare := Some (Buffer_from_hex (padStart0 64 (toString16 30)))\<rparr>)"
  proof -
    have a: "all_addressed_parse (partyId demo_config) (receivedShares corrupted_service)"
      by (simp only: p1 r demo_addressed)
    have n: "\<forall>c\<in>set [5, 7, 11 :: int]. 0 \<le> c" by simp
    have p: "0 \<le> partyId demo_config" by (simp add: p1)
    show ?thesis
      using round5_ComputeKeyShare_eq [OF c n p a]
      unfolding r p1 demo_addressed
      by (simp add: demo_poly_values m30)
  qed
  moreover have "be_value (Buffer_from_hex (padStart0 64 (toString16 30))) = 30"
    by (rule be_value_hex64) simp_all
  ultimately show ?thesis
    using e m by (simp add: round4_VerifyShares_def)
qed

section \<open>The validator node: signal events\<close>

lemma initiated_logger [simp]: "initiated (logger level text st) = initiated st"
  and ws_sent_logger [simp]: "ws_sent (logger level text st) = ws_sent st"
  and log_logger [simp]: "log (logger level text st) = log st @ [(level, text)]"
  by (simp_all add: logger_def)

lemma initiated_recordSignatureRequest [simp]:
  "initiated (recordSignatureRequest env a b c d st) = initiated st"
  and ws_sent_recordSignatureRequest [simp]:
  "ws_sent (recordSignatureRequest env a b c d st) = ws_sent st"
  by (simp_all add: recordSignatureRequest_def)

lemma handleSignalEvent_try_initiated:
  "initiated (snd (handleSignalEvent_try env event st)) = initiated st @ [signing_request event]"
  by (simp add: handleSignalEvent_try_def Let_def split: prod.splits)

lemma handleSignalEvent_initiated:
  "initiated (snd (handleSignalEvent env event st)) = initiated st @ [signing_request event]"
  using handleSignalEvent_try_initiated [of env event st]
  by (cases "handleSignalEvent_try env event st") (auto simp: handleSignalEvent_def split: option.splits)

lemma handleSignalEvent_returns: "fst (handleSignalEvent env event st) = None"
  by (simp add: handleSignalEvent_def split: prod.splits option.splits)

lemma on_signalEvent_initiated:
  "initiated (snd (on_signalEvent env event st)) = initiated st @ [signing_request event]"
  by (simp add: on_signalEvent_def handleSignalEvent_initiated)

lemma on_signalEvent_returns: "fst (on_signalEvent env event st) = None"
  by (simp add: on_signalEvent_def handleSignalEvent_returns)

lemma message_of_log: "message (signing_request (SignalSent_listener chainName l)) = log_signalId l"
  by (simp add: signing_request_def SignalSent_listener_def hexlify_def Buffer_from_hex_toString_hex)

text \<open>
  Claim C1, as the code has it. For every \<open>SignalSent\<close> log the monitor reports, the node
  calls \<open>initiateSigning\<close> once, and the bytes it submits as the message are the bytes
  of the signal id: the hexadecimal digits of \<open>signalId\<close> after its first two
  characters, decoded. No hash is applied, and neither the chain ids nor the nonce nor
  the payload enter the message.
\<close>

theorem submitted_message_is_signal_id:
  "initiated (snd (on_signalEvent env (SignalSent_listener chainName l) st))
     = initiated st @ [signing_request (SignalSent_listener chainName l)]
   \<and> message (signing_request (SignalSent_listener chainName l)) = log_signalId l
   \<and> message (signing_request event) = Buffer_from_hex (drop 2 (ev_signalId event))"
  by (simp add: on_signalEvent_initiated message_of_log) (simp add: signing_request_def)

text \<open>
  The claim as stated fails. Two logs that differ in the payload have different canonical
  bytes and the same submitted message, the 32 bytes of the signal id, which are the first
  32 of the canonical bytes: no function \<open>H\<close> that tells the two canonical byte strings
  apart gives the submitted message at both.
\<close>

theorem canonical_message_counterexample:
  "map message (initiated (snd (on_signalEvent accepting_env (SignalSent_listener ''Ethereum'' log_dead) node0)))
     = [replicate 32 1]
   \<and> map message (initiated (snd (on_signalEvent accepting_env (SignalSent_listener ''Ethereum'' log_beef) node0)))
     = [replicate 32 1]
   \<and> canonical_preimage_spec log_dead \<noteq> canonical_preimage_spec log_beef
   \<and> take 32 (canonical_preimage_spec log_dead) = replicate 32 1
   \<and> \<not> (\<exists>H. H (canonical_preimage_spec log_dead) \<noteq> H (canonical_preimage_spec log_beef)
            \<and> message (signing_request (SignalSent_listener ''Ethereum'' log_dead))
                = H (canonical_preimage_spec log_dead)
            \<and> message (signing_request (SignalSent_listener ''Ethereum'' log_beef))
                = H (canonical_preimage_spec log_beef))"
proof -
  have d: "log_signalId log_dead = replicate 32 1" and b: "log_signalId log_beef = replicate 32 1"
    by (simp_all add: log_dead_def log_beef_def)
  have i: "initiated node0 = []" by (simp add: node0_def)
  have p: "canonical_preimage_spec log_dead \<noteq> canonical_preimage_spec log_beef"
    by (simp add: canonical_preimage_spec_def log_dead_def log_beef_def)
  have t: "take 32 (canonical_preimage_spec log_dead) = replicate 32 1"
    by (simp add: canonical_preimage_spec_def d)
  show ?thesis
    by (simp add: on_signalEvent_initiated i message_of_log d b p t)
qed


lemma on_signalEvents_eq:
  "fst (on_signalEvents env events st) = None
   \<and> initiated (snd (on_signalEvents env events st)) = initiated st @ map signing_request events"
proof (induction events arbitrary: st)
  case Nil
  show ?case by simp
next
  case (Cons event rest)
  obtain st1 where s: "on_signalEvent env event st = (None, st1)"
    using on_signalEvent_returns [of env event st] by (cases "on_signalEvent env event st") simp
  have "initiated st1 = initiated st @ [signing_request event]"
    using on_signalEvent_initiated [of env event st] s by simp
  with Cons [of st1] s show ?case by simp
qed

text \<open>
  Claim C2, as the code has it. Neither the monitor nor the node remembers a signal id:
  every call of the listener, whatever its event and whatever came before, makes one more
  call of \<open>initiateSigning\<close>, with the request built from the event. The listener never
  throws.
\<close>

theorem every_signal_event_initiates_signing:
  "fst (on_signalEvents env events st) = None
   \<and> initiated (snd (on_signalEvents env events st)) = initiated st @ map signing_request events
   \<and> requestId (signing_request event) = ev_signalId event @ ''-'' @ take 10 (ev_txHash event)"
  by (simp add: on_signalEvents_eq) (simp add: signing_request_def)

text \<open>
  The claim as stated fails: the same log reported twice starts two signing attempts, with
  the same request id.
\<close>

theorem duplicate_signal_counterexample:
  "initiated (snd (on_signalEvents accepting_env
       [SignalSent_listener ''Ethereum'' log_dead, SignalSent_listener ''Ethereum'' log_dead] node0))
     = [signing_request (SignalSent_listener ''Ethereum'' log_dead),
        signing_request (SignalSent_listener ''Ethereum'' log_dead)]
   \<and> requestId (signing_request (SignalSent_listener ''Ethereum'' log_dead))
     = ev_signalId (SignalSent_listener ''Ethereum'' log_dead) @ ''-0xabcdef01''"
proof -
  have i: "initiated node0 = []" by (simp add: node0_def)
  have r: "requestId (signing_request (SignalSent_listener ''Ethereum'' log_dead))
     = ev_signalId (SignalSent_listener ''Ethereum'' log_dead) @ ''-0xabcdef01''"
    by (simp add: signing_request_def SignalSent_listener_def log_dead_def)
  have "initiated (snd (on_signalEvents accepting_env
       [SignalSent_listener ''Ethereum'' log_dead, SignalSent_listener ''Ethereum'' log_dead] node0))
     = initiated node0 @ map signing_request
         [SignalSent_listener ''Ethereum'' log_dead, SignalSent_listener ''Ethereum'' log_dead]"
    using on_signalEvents_eq by blast
  with i r show ?thesis by simp
qed

lemma handleSignalEvent_try_fails:
  "fst (handleSignalEvent_try env event st) \<noteq> None \<longleftrightarrow>
     fst (initiateSigning env (signing_request event) (tss st))
     \<or> (ws_open st \<and> send_fails env
            \<lparr> m_validatorId = validatorId env, m_signalId = ev_signalId event,
              m_srcChainId = ev_srcChainId event, m_dstChainId = ev_dstChainId event,
              m_txHash = ev_txHash event, m_requestId = requestId (signing_request event) \<rparr>)"
  by (auto simp: handleSignalEvent_try_def recordSignatureRequest_def logger_def Let_def split: prod.splits)

lemma handleSignalEvent_try_failed_sent:
  "fst (handleSignalEvent_try env event st) \<noteq> None \<Longrightarrow>
     ws_sent (snd (handleSignalEvent_try env event st)) = ws_sent st"
  by (auto simp: handleSignalEvent_try_def recordSignatureRequest_def logger_def Let_def
      split: prod.splits if_splits)

text \<open>
  Claim C10. \<open>handleSignalEvent\<close> returns normally for every event, every state and
  every behaviour of its collaborators, and so does the listener of the chain monitor.
  What is inside its \<open>try\<close> throws exactly when \<open>initiateSigning\<close> throws or the
  socket is open and \<open>send\<close> throws (a failure of the revenue recording is caught in
  the tracker and the signing goes on). When it throws, one line is logged at level
  error; nothing is sent to the orchestrator and the call still returns no error.
\<close>

theorem handleSignalEvent_never_throws:
  "fst (handleSignalEvent env event st) = None
   \<and> fst (on_signalEvent env event st) = None
   \<and> initiated (snd (handleSignalEvent env event st)) = initiated st @ [signing_request event]
   \<and> (fst (handleSignalEvent_try env event st) \<noteq> None \<longleftrightarrow>
        fst (initiateSigning env (signing_request event) (tss st))
        \<or> (ws_open st \<and> send_fails env
               \<lparr> m_validatorId = validatorId env, m_signalId = ev_signalId event,
                 m_srcChainId = ev_srcChainId event, m_dstChainId = ev_dstChainId event,
                 m_txHash = ev_txHash event, m_requestId = requestId (signing_request event) \<rparr>))
   \<and> (fst (handleSignalEvent_try env event st) \<noteq> None \<longrightarrow>
        log (snd (handleSignalEvent env event st))
          = log (snd (handleSignalEvent_try env event st)) @ [(ERROR, ''Error handling signal event:'')]
        \<and> ws_sent (snd (handleSignalEvent env event st)) = ws_sent st)"
proof -
  have a: "log (snd (handleSignalEvent env event st))
          = log (snd (handleSignalEvent_try env event st)) @ [(ERROR, ''Error handling signal event:'')]
        \<and> ws_sent (snd (handleSignalEvent env event st)) = ws_sent st"
    if f: "fst (handleSignalEvent_try env event st) \<noteq> None"
  proof -
    obtain e st1 where t: "handleSignalEvent_try env event st = (Some e, st1)"
      using f by (cases "handleSignalEvent_try env event st") auto
    have "ws_sent st1 = ws_sent st"
      using handleSignalEvent_try_failed_sent [OF f] t by simp
    then show ?thesis
      by (simp add: handleSignalEvent_def t)
  qed
  show ?thesis
    using a handleSignalEvent_try_fails [of env event st]
    by (simp add: handleSignalEvent_returns on_signalEvent_returns handleSignalEvent_initiated)
qed

theorem handleSignalEvent_never_throws_witness:
  "fst (handleSignalEvent_try throwing_env (SignalSent_listener ''Ethereum'' log_dead) node0) = Some TSSError
   \<and> fst (handleSignalEvent throwing_env (SignalSent_listener ''Ethereum'' log_dead) node0) = None
   \<and> log (snd (handleSignalEvent throwing_env (SignalSent_listener ''Ethereum'' log_dead) node0))
       = [(INFO, ''Initiating TSS signing for signal''), (ERROR, ''Error handling signal event:'')]
   \<and> ws_sent (snd (handleSignalEvent throwing_env (SignalSent_listener ''Ethereum'' log_dead) node0)) = []"
proof -
  have t: "handleSignalEvent_try throwing_env (SignalSent_listener ''Ethereum'' log_dead) node0
      = (Some TSSError,
         node0\<lparr>log := [(INFO, ''Initiating TSS signing for signal'')],
               initiated := [signing_request (SignalSent_listener ''Ethereum'' log_dead)]\<rparr>)"
    by (simp add: handleSignalEvent_try_def recordSignatureRequest_def logger_def throwing_env_def
        node0_def Let_def)
  then have f: "fst (handleSignalEvent_try throwing_env (SignalSent_listener ''Ethereum'' log_dead) node0) \<noteq> None"
    by simp
  from handleSignalEvent_never_throws [of throwing_env "SignalSent_listener ''Ethereum'' log_dead" node0] f t
  show ?thesis
    by (simp add: node0_def)
qed

section \<open>The DKG service: verification of the commitments\<close>

lemma verify_all_eq:
  "verify_all ctx rcs =
     (case find (\<lambda>pc. int (length (commitments (snd pc))) \<noteq> threshold (dkg_config ctx)) rcs of
        None \<Rightarrow> None
      | Some pc \<Rightarrow> Some (InvalidCommitment (fst pc)))"
  by (induction ctx rcs rule: verify_all.induct) (simp_all add: verifyCommitment_def)

text \<open>
  Claim C6, as the code has it. A received commitment set is accepted if and only if it
  holds \<open>threshold\<close> commitments; its proof is not looked at. Round 2, once all
  commitments are there, throws \<open>Invalid commitment from Party p\<close> for the first entry
  of \<open>receivedCommitments\<close>, in order of arrival, whose length is not \<open>threshold\<close>,
  where \<open>p\<close> is the party id the entry was received under; with no such entry it
  accepts them all.
\<close>

theorem commitment_verification:
  "verifyCommitment ctx c = (int (length (commitments c)) = threshold (dkg_config ctx))
   \<and> verifyCommitment ctx (c\<lparr>c_proof := prf\<rparr>) = verifyCommitment ctx c
   \<and> verify_all ctx rcs =
       (case find (\<lambda>pc. int (length (commitments (snd pc))) \<noteq> threshold (dkg_config ctx)) rcs of
          None \<Rightarrow> None
        | Some pc \<Rightarrow> Some (InvalidCommitment (fst pc)))
   \<and> round2_VerifyCommitments ctx w =
       (case waitForAllCommitments ctx w of
          (Some e, w1) \<Rightarrow> (Some e, w1)
        | (None, w1) \<Rightarrow> (verify_all ctx (receivedCommitments (service w1)), w1))"
  using verify_all_eq [of ctx rcs]
  by (simp add: verifyCommitment_def round2_VerifyCommitments_def)

text \<open>
  The claim as stated fails: round 2 accepts a commitment set of the right length whose
  proof is the empty string, which is not what \<open>generateCommitmentProof\<close> gives for its
  commitments.
\<close>

theorem forged_proof_counterexample:
  "round2_VerifyCommitments demo_ctx world_forged_proof = (None, world_forged_proof)
   \<and> map (\<lambda>(p, c). (p, c_proof c)) (receivedCommitments (service world_forged_proof))
       = [(2, []), (3, ''digest''), (4, ''digest''), (5, ''digest'')]
   \<and> generateCommitmentProof (dkg_curve demo_ctx) [] (commitments (commitment_of 2 [])) = ''digest''"
proof -
  have r: "receivedCommitments (service world_forged_proof) =
        [(2, commitment_of 2 []), (3, commitment_of 3 ''digest''),
         (4, commitment_of 4 ''digest''), (5, commitment_of 5 ''digest'')]"
    by (simp add: world_forged_proof_def)
  have n: "totalParties (dkg_config demo_ctx) = 5" and t: "threshold (dkg_config demo_ctx) = 3"
    by (simp_all add: demo_ctx_def demo_config_def)
  have w: "waitForAllCommitments demo_ctx world_forged_proof = (None, world_forged_proof)"
    unfolding waitForAllCommitments_def by (subst poll_until.simps) (simp add: r n)
  have v: "verify_all demo_ctx (receivedCommitments (service world_forged_proof)) = None"
    by (simp add: r verifyCommitment_def t commitment_of_def)
  show ?thesis
    by (simp add: round2_VerifyCommitments_def w v)
      (simp add: r commitment_of_def generateCommitmentProof_def demo_ctx_def demo_curve_def)
qed

section \<open>The DKG ceremony: timeouts\<close>

lemma deliver_frame [simp]:
  "dkg_os (deliver w) = dkg_os w" "emitted (deliver w) = emitted w" "timers (deliver w) = timers w"
  by (simp_all add: deliver_def)

lemma sleep_frame [simp]: "dkg_os (sleep ctx ms w) = dkg_os w"
  by (simp add: sleep_def)

lemma broadcast_frame [simp]:
  "dkg_os (broadcast ctx m w) = dkg_os w"
  "now (broadcast ctx m w) = now w + 50 + int (lateness ctx (timers w))"
  by (simp_all add: broadcast_def)

lemma await_import_frame [simp]:
  "dkg_os (await_import ctx w) = dkg_os w"
  "now (await_import ctx w) = now w + int (lateness ctx (timers w))"
  by (simp_all add: await_import_def)





lemma frame_tframe: "frame ctx w r \<Longrightarrow> tframe ctx w r"
  by (simp add: frame_def tframe_def)

lemma and_then_frame:
  assumes "\<And>w. frame ctx w (f w)" "\<And>w. frame ctx w (g w)"
  shows "frame ctx w (and_then f g w)"
proof (cases "f w")
  case (Pair thrown w1)
  show ?thesis
  proof (cases thrown)
    case (Some e)
    with Pair assms(1) [of w] show ?thesis by (simp add: and_then_def)
  next
    case None
    with Pair have a: "and_then f g w = g w1" by (simp add: and_then_def)
    from assms(1) [of w] Pair have f: "files (dkg_os w1) = files (dkg_os w)" "now w \<le> now w1"
      by (simp_all add: frame_def)
    from assms(2) [of w1] f show ?thesis
      unfolding a frame_def by auto
  qed
qed


















lemma quiet_trans: "quiet w w1 \<Longrightarrow> quiet w1 w2 \<Longrightarrow> quiet w w2"
  by (simp add: quiet_def)

























end
